theory Spec2Isabelle
  imports Main "HOL-Library.Word"
begin

section \<open>Go values used by the player package\<close>

text \<open>
  Unsigned 64-bit values are \<open>64 word\<close>; a signed 64-bit value is the same word read with
  \<open>sint\<close>. Go's \<open>int\<close> (chunk indices, slice lengths, blob lengths) is modelled by \<open>int\<close>:
  the indices handled here are bounded by slice lengths. A byte string is a \<open>string\<close>.
  A text that is matched rune by rune (the file name) is the list of its code points.
\<close>

type_synonym uint64 = "64 word"
type_synonym int64 = "64 word"
type_synonym ustring = "nat list"

text \<open>
  Errors. The sentinel values of the package are compared by identity (\<open>errors.Is\<close>); an
  error made by \<open>errors.New\<close> carries its text; a wrapping error carries its own text and
  the error it wraps.
\<close>

datatype sentinel =
    errPaidStream
  | errStreamNotFound
  | errStreamSizeZero
  | errOutOfBounds
  | errSeekingBeforeStart
  | io_EOF

datatype error =
    Sentinel sentinel
  | errors_New string
  | Wrapped string error

fun errors_Is :: "error \<Rightarrow> sentinel \<Rightarrow> bool" where
  "errors_Is (Sentinel x) t = (x = t)"
| "errors_Is (errors_New m) t = False"
| "errors_Is (Wrapped m e) t = errors_Is e t"

text \<open>
  \<open>err.Error()\<close>. The texts of the package's sentinel errors are declared in another
  file of the package, so they are the parameter \<open>txt\<close>.
\<close>

fun Error :: "(sentinel \<Rightarrow> string) \<Rightarrow> error \<Rightarrow> string" where
  "Error txt (Sentinel x) = txt x"
| "Error txt (errors_New m) = m"
| "Error txt (Wrapped m e) = m"

text \<open>Indexing and slicing panic out of range: \<open>None\<close> is the runtime panic.\<close>

definition go_index :: "'a list \<Rightarrow> int \<Rightarrow> 'a option" where
  "go_index xs i = (if 0 \<le> i \<and> i < int (length xs) then Some (xs ! nat i) else None)"

definition go_slice :: "'a list \<Rightarrow> int \<Rightarrow> int \<Rightarrow> 'a list option" where
  "go_slice xs lo hi =
     (if 0 \<le> lo \<and> lo \<le> hi \<and> hi \<le> int (length xs)
      then Some (take (nat hi - nat lo) (drop (nat lo) xs)) else None)"

definition go_slice_from :: "'a list \<Rightarrow> int \<Rightarrow> 'a list option" where
  "go_slice_from xs lo = go_slice xs lo (int (length xs))"

text \<open>\<open>hex.EncodeToString\<close>: two lower-case hexadecimal digits for each byte.\<close>

definition hextable :: string where
  "hextable = ''0123456789abcdef''"

definition hex_EncodeToString :: "string \<Rightarrow> string" where
  "hex_EncodeToString src =
     concat (map (\<lambda>b. [hextable ! ((of_char b :: nat) div 16),
                        hextable ! ((of_char b :: nat) mod 16)]) src)"

text \<open>
  \<open>float64(x)\<close> for a signed 64-bit \<open>x\<close>: the nearest value with a 53-bit significand, ties
  to the even significand. The result is an integer again, so it is given as one.
\<close>

definition float64_of_int64 :: "int \<Rightarrow> int" where
  "float64_of_int64 x =
     (let a = \<bar>x\<bar> in
      case find (\<lambda>e. a < 2 ^ (53 + e)) [0..<12] of
        None \<Rightarrow> x
      | Some e \<Rightarrow>
          let q = a div 2 ^ e; r = a mod 2 ^ e
          in sgn x * (if 2 ^ e < 2 * r \<or> (2 * r = 2 ^ e \<and> odd q) then q + 1 else q) * 2 ^ e)"

section \<open>Stream descriptors, claims and the stream\<close>

record BlobInfo =
  Length :: int
  BlobNum :: int
  BlobHash :: string
  IV :: string

record SDBlob =
  BlobInfos :: "BlobInfo list"
  Key :: string

definition MaxBlobSize :: int where
  "MaxBlobSize = 2097152"

text \<open>
  Of the claim and its source the stream reads: whether the claim's value is a stream, the
  normalized name, the timestamp; the source's name, size, media type and descriptor hash.
  The getters of a nil source give the zero values.
\<close>

record Source =
  Name :: ustring
  SourceSize :: uint64
  MediaType :: string
  SdHash :: string

record Claim =
  IsStream :: bool
  NormalizedName :: ustring
  Timestamp :: int

type_synonym ReadableChunk = "string option"

definition chunk_len :: "ReadableChunk \<Rightarrow> int" where
  "chunk_len b = (case b of None \<Rightarrow> 0 | Some bs \<Rightarrow> int (length bs))"

record Stream =
  URI :: string
  Size :: uint64
  ContentType :: string
  hash :: string
  prefetchedChunks :: "int \<Rightarrow> bool"
  claim :: Claim
  source :: Source
  sdBlob :: "SDBlob option"
  seekOffset :: int64

record streamRange =
  FirstChunkIdx :: int
  LastChunkIdx :: int
  FirstChunkOffset :: int
  LastChunkReadLen :: int

text \<open>
  The HTTP side. Of a request the handler reads the URL as a string, the method, the route
  variables and the query values. A response writer is its header map and the calls made
  on it, in order.
\<close>

record Request =
  URL_String :: string
  Method :: string
  Vars :: "string \<Rightarrow> string"
  Query :: "string \<Rightarrow> string list"

datatype wcall = WriteHeader int | Write string

record ResponseWriter =
  Header :: "string \<Rightarrow> ustring list option"
  calls :: "wcall list"

text \<open>
  The player. The blob source (hot cache over the disk store and the origin), the chunk
  arithmetic and the package constants are declared in files of the repository whose
  source is missing: they are the fields of this record, over a state \<open>'c\<close> of the blob
  source; so are the resolution of a URI, the check of the access token and the serving
  of the content. An operation returns its Go result and the state it leaves.
\<close>

record 'c Player =
  prefetch :: bool
  MaxChunkSize :: int
  DefaultPrefetchLen :: int
  GetSDBlob :: "'c \<Rightarrow> string \<Rightarrow> (SDBlob option \<times> error option) \<times> 'c"
  bs_GetChunk :: "'c \<Rightarrow> string \<Rightarrow> string \<Rightarrow> string \<Rightarrow> (ReadableChunk \<times> error option) \<times> 'c"
  IsCached :: "'c \<Rightarrow> string \<Rightarrow> bool"
  clearChuckFromCache :: "'c \<Rightarrow> string \<Rightarrow> error option \<times> 'c"
  getRange :: "int \<Rightarrow> int \<Rightarrow> streamRange"
  ByteRangeForChunk :: "streamRange \<Rightarrow> int \<Rightarrow> int \<times> int"
  chunk_Read :: "ReadableChunk \<Rightarrow> int \<Rightarrow> int \<Rightarrow> string \<Rightarrow> (int \<times> error option \<times> string) option"
  GetExtensionByType :: "string \<Rightarrow> ustring"
  ResolveStream :: "'c \<Rightarrow> string \<Rightarrow> (error + Stream) \<times> 'c"
  VerifyAccess :: "'c \<Rightarrow> Stream \<Rightarrow> string \<Rightarrow> error option \<times> 'c"
  Play :: "'c \<Rightarrow> Stream \<Rightarrow> ResponseWriter \<Rightarrow> Request \<Rightarrow> error option \<times> ResponseWriter \<times> 'c"

text \<open>
  What runs beside the stream: the state of the blob source, and the arguments of the
  \<open>prefetchChunk\<close> goroutines launched so far, in launch order.
\<close>

record 'c runtime =
  cache :: 'c
  spawned :: "int list"

section \<open>The stream reader\<close>

text \<open>\<open>Stream.Filename\<close>\<close>

definition Filename :: "'c Player \<Rightarrow> Stream \<Rightarrow> ustring" where
  "Filename P s =
     (let name = Name (source s) in
      if name \<noteq> [] then name
      else
        let name = NormalizedName (claim s);
            ext = GetExtensionByType P (ContentType s)
        in if ext = [] then name else name @ [46] @ ext)"

text \<open>\<open>Stream.getStreamSizeFromLastBlobSize\<close>\<close>

definition getStreamSizeFromLastBlobSize ::
  "'c Player \<Rightarrow> Stream \<Rightarrow> 'c \<Rightarrow> ((uint64 \<times> error option) \<times> 'c) option" where
  "getStreamSizeFromLastBlobSize P s c =
     (if \<not> IsStream (claim s) then Some ((0, Some (errors_New ''claim is not a stream'')), c)
      else case sdBlob s of
        None \<Rightarrow> None
      | Some sd \<Rightarrow>
          let numChunks = int (length (BlobInfos sd)) - 1 in
          if numChunks \<le> 0 then Some ((0, None), c)
          else case go_index (BlobInfos sd) (numChunks - 1) of
            None \<Rightarrow> None
          | Some lastBlobInfo \<Rightarrow>
              (case bs_GetChunk P c (hex_EncodeToString (BlobHash lastBlobInfo)) (Key sd)
                      (IV lastBlobInfo) of
                 ((lastChunk, Some err), c') \<Rightarrow> Some ((0, Some err), c')
               | ((lastChunk, None), c') \<Rightarrow>
                   Some ((word_of_int (MaxChunkSize P) * word_of_int (numChunks - 1)
                            + word_of_int (chunk_len lastChunk), None), c')))"

text \<open>The loop of \<open>Stream.setSize\<close> over every blob info of the descriptor.\<close>

fun sumBlobs :: "'c Player \<Rightarrow> BlobInfo list \<Rightarrow> uint64 \<Rightarrow> uint64" where
  "sumBlobs P [] sz = sz"
| "sumBlobs P (blob # blobs) sz =
     sumBlobs P blobs
       (if Length blob = MaxBlobSize then sz + word_of_int (MaxChunkSize P)
        else sz + word_of_int (Length blob - 1))"

text \<open>\<open>Stream.setSize\<close>\<close>

definition setSize :: "'c Player \<Rightarrow> Stream \<Rightarrow> 'c \<Rightarrow> (Stream \<times> 'c) option" where
  "setSize P s c =
     (if 0 < Size s then Some (s, c)
      else if 0 < SourceSize (source s) then Some (s\<lparr>Size := SourceSize (source s)\<rparr>, c)
      else case getStreamSizeFromLastBlobSize P s c of
        None \<Rightarrow> None
      | Some ((sz, None), c') \<Rightarrow> Some (s\<lparr>Size := sz\<rparr>, c')
      | Some ((sz, Some err), c') \<Rightarrow>
          (case sdBlob s of
             None \<Rightarrow> None
           | Some sd \<Rightarrow> Some (s\<lparr>Size := sumBlobs P (BlobInfos sd) sz - 16\<rparr>, c')))"

text \<open>\<open>Stream.PrepareForReading\<close>: the error, the stream and the blob source it leaves.\<close>

definition PrepareForReading ::
  "'c Player \<Rightarrow> Stream \<Rightarrow> 'c \<Rightarrow> (error option \<times> Stream \<times> 'c) option" where
  "PrepareForReading P s c =
     (case GetSDBlob P c (hash s) of
        ((sd, Some err), c') \<Rightarrow> Some (Some err, s, c')
      | ((sd, None), c') \<Rightarrow>
          (case setSize P (s\<lparr>sdBlob := sd\<rparr>) c' of
             None \<Rightarrow> None
           | Some (s', c'') \<Rightarrow> Some (None, s', c'')))"

text \<open>\<open>Stream.Seek\<close>: the returned offset, the error and the stream it leaves.\<close>

definition io_SeekStart :: int where "io_SeekStart = 0"
definition io_SeekCurrent :: int where "io_SeekCurrent = 1"
definition io_SeekEnd :: int where "io_SeekEnd = 2"

definition Seek :: "Stream \<Rightarrow> int64 \<Rightarrow> int \<Rightarrow> (int64 \<times> error option) \<times> Stream" where
  "Seek s offset whence =
     (if Size s = 0 then ((0, Some (Sentinel errStreamSizeZero)), s)
      else if Size s < word_of_int \<bar>float64_of_int64 (sint offset)\<bar>
        then ((0, Some (Sentinel errOutOfBounds)), s)
      else if whence \<noteq> io_SeekStart \<and> whence \<noteq> io_SeekCurrent \<and> whence \<noteq> io_SeekEnd
        then ((0, Some (errors_New ''invalid seek whence argument'')), s)
      else
        let newOffset =
              (if whence = io_SeekStart then offset
               else if whence = io_SeekCurrent then seekOffset s + offset
               else Size s - offset)
        in if sint newOffset < 0 then ((0, Some (Sentinel errSeekingBeforeStart)), s)
           else ((newOffset, None), s\<lparr>seekOffset := newOffset\<rparr>))"

text \<open>\<open>Stream.RemoveChunk\<close>: the error and the runtime it leaves; \<open>None\<close> is a panic.\<close>

definition RemoveChunk ::
  "'c Player \<Rightarrow> Stream \<Rightarrow> 'c runtime \<Rightarrow> int \<Rightarrow> (error option \<times> 'c runtime) option" where
  "RemoveChunk P s w chunkIdx =
     (case sdBlob s of
        None \<Rightarrow> None
      | Some sd \<Rightarrow>
          if int (length (BlobInfos sd)) < chunkIdx
          then Some (Some (errors_New ''blob index out of bounds''), w)
          else case go_index (BlobInfos sd) chunkIdx of
            None \<Rightarrow> None
          | Some bi \<Rightarrow>
              (case clearChuckFromCache P (cache w) (hex_EncodeToString (BlobHash bi)) of
                 (err, c') \<Rightarrow> Some (err, w\<lparr>cache := c'\<rparr>)))"

text \<open>
  \<open>Stream.GetChunk\<close>: the chunk and the error, the stream (its map of scheduled indices)
  and the runtime it leaves. The \<open>go\<close> statement appends its argument to \<open>spawned\<close>.
\<close>

definition GetChunk ::
  "'c Player \<Rightarrow> Stream \<Rightarrow> 'c runtime \<Rightarrow> int \<Rightarrow>
     ((ReadableChunk \<times> error option) \<times> Stream \<times> 'c runtime) option" where
  "GetChunk P s w chunkIdx =
     (case sdBlob s of
        None \<Rightarrow> None
      | Some sd \<Rightarrow>
          if int (length (BlobInfos sd)) < chunkIdx
          then Some ((None, Some (errors_New ''blob index out of bounds'')), s, w)
          else case go_index (BlobInfos sd) chunkIdx of
            None \<Rightarrow> None
          | Some bi \<Rightarrow>
              (case bs_GetChunk P (cache w) (hex_EncodeToString (BlobHash bi)) (Key sd) (IV bi) of
                 ((chunk, err), c') \<Rightarrow>
                   if err \<noteq> None \<or> chunk = None then Some ((None, err), s, w\<lparr>cache := c'\<rparr>)
                   else
                     let chunkToPrefetch = chunkIdx + 1;
                         prefetched = prefetchedChunks s chunkToPrefetch
                     in if prefetch P \<and> \<not> prefetched
                        then Some ((chunk, None),
                               s\<lparr>prefetchedChunks := (prefetchedChunks s)(chunkToPrefetch := True)\<rparr>,
                               w\<lparr>cache := c', spawned := spawned w @ [chunkToPrefetch]\<rparr>)
                        else Some ((chunk, None), s, w\<lparr>cache := c'\<rparr>)))"

text \<open>
  The loop of \<open>Stream.prefetchChunk\<close> over the blob infos of the window. Beside the state
  of the blob source it returns every call of the blob source's \<open>GetChunk\<close>, in order: the
  blob info whose chunk was asked for and the state in which it was asked.
\<close>

fun prefetchLoop ::
  "'c Player \<Rightarrow> SDBlob \<Rightarrow> BlobInfo list \<Rightarrow> 'c \<Rightarrow> (BlobInfo \<times> 'c) list \<times> 'c" where
  "prefetchLoop P sd [] c = ([], c)"
| "prefetchLoop P sd (bi # bis) c =
     (if IsCached P c (hex_EncodeToString (BlobHash bi)) then prefetchLoop P sd bis c
      else case bs_GetChunk P c (hex_EncodeToString (BlobHash bi)) (Key sd) (IV bi) of
        ((chunk, Some err), c') \<Rightarrow> ([(bi, c)], c')
      | ((chunk, None), c') \<Rightarrow>
          (case prefetchLoop P sd bis c' of (fetched, c'') \<Rightarrow> ((bi, c) # fetched, c'')))"

text \<open>\<open>Stream.prefetchChunk\<close>, run on a state of the blob source; \<open>None\<close> is a panic.\<close>

definition prefetchChunk ::
  "'c Player \<Rightarrow> Stream \<Rightarrow> 'c \<Rightarrow> int \<Rightarrow> ((BlobInfo \<times> 'c) list \<times> 'c) option" where
  "prefetchChunk P s c chunkIdx =
     (case sdBlob s of
        None \<Rightarrow> None
      | Some sd \<Rightarrow>
          let chunksLeft = int (length (BlobInfos sd)) - chunkIdx - 1;
              prefetchLen = (if chunksLeft < DefaultPrefetchLen P then chunksLeft
                             else DefaultPrefetchLen P)
          in if prefetchLen \<le> 0 then Some ([], c)
             else case go_slice (BlobInfos sd) chunkIdx (chunkIdx + prefetchLen) of
               None \<Rightarrow> None
             | Some bis \<Rightarrow> Some (prefetchLoop P sd bis c))"

text \<open>
  \<open>Stream.attemptReadFromChunks\<close>, from chunk index \<open>i\<close> with \<open>read\<close> bytes delivered: the
  index at which the pass stopped, the bytes read and the error; the buffer, the stream
  and the runtime it leaves.
\<close>

function attemptLoop ::
  "'c Player \<Rightarrow> streamRange \<Rightarrow> int \<Rightarrow> int \<Rightarrow> string \<Rightarrow> Stream \<Rightarrow> 'c runtime \<Rightarrow>
     ((int \<times> int \<times> error option) \<times> string \<times> Stream \<times> 'c runtime) option" where
  "attemptLoop P sr i read dest s w =
     (if i < LastChunkIdx sr + 1 then
        (case ByteRangeForChunk P sr i of
           (offset, readLen) \<Rightarrow>
             (case GetChunk P s w i of
                None \<Rightarrow> None
              | Some ((b, Some err), s', w') \<Rightarrow> Some ((i, read, Some err), dest, s', w')
              | Some ((b, None), s', w') \<Rightarrow>
                  (case go_slice_from dest read of
                     None \<Rightarrow> None
                   | Some d \<Rightarrow>
                       (case chunk_Read P b offset readLen d of
                          None \<Rightarrow> None
                        | Some (n, Some err, d') \<Rightarrow>
                            Some ((i, read + n, Some err), take (nat read) dest @ d', s', w')
                        | Some (n, None, d') \<Rightarrow>
                            attemptLoop P sr (i + 1) (read + n) (take (nat read) dest @ d') s' w'))))
      else Some ((i, read, None), dest, s, w))"
  by pat_completeness auto
termination
  by (relation "measure (\<lambda>(P, sr, i, read, dest, s, w). nat (LastChunkIdx sr + 1 - i))") auto

declare attemptLoop.simps [simp del]

definition attemptReadFromChunks ::
  "'c Player \<Rightarrow> Stream \<Rightarrow> 'c runtime \<Rightarrow> streamRange \<Rightarrow> string \<Rightarrow>
     ((int \<times> int \<times> error option) \<times> string \<times> Stream \<times> 'c runtime) option" where
  "attemptReadFromChunks P s w sr dest = attemptLoop P sr (FirstChunkIdx sr) 0 dest s w"

text \<open>
  The loop of \<open>Stream.readFromChunks\<close>, at pass \<open>i\<close>. The parameter \<open>read\<close> is the variable
  declared before the loop; the pass's own results are \<open>index\<close>, \<open>read'\<close> and \<open>err\<close>,
  declared in the loop body.
\<close>

function readLoop ::
  "'c Player \<Rightarrow> streamRange \<Rightarrow> int \<Rightarrow> int \<Rightarrow> string \<Rightarrow> Stream \<Rightarrow> 'c runtime \<Rightarrow>
     ((int \<times> error option) \<times> string \<times> Stream \<times> 'c runtime) option" where
  "readLoop P sr i read dest s w =
     (if i < 2 then
        (case attemptReadFromChunks P s w sr dest of
           None \<Rightarrow> None
         | Some ((index, read', Some err), dest', s', w') \<Rightarrow> Some ((read', Some err), dest', s', w')
         | Some ((index, read', None), dest', s', w') \<Rightarrow>
             if 0 < read' then Some ((read, None), dest', s', w')
             else (case RemoveChunk P s' w' index of
                     None \<Rightarrow> None
                   | Some (Some err, w'') \<Rightarrow> Some ((read', Some err), dest', s', w'')
                   | Some (None, w'') \<Rightarrow> readLoop P sr (i + 1) read dest' s' w''))
      else Some ((read, None), dest, s, w))"
  by pat_completeness auto
termination
  by (relation "measure (\<lambda>(P, sr, i, read, dest, s, w). nat (2 - i))") auto

declare readLoop.simps [simp del]

definition readFromChunks ::
  "'c Player \<Rightarrow> Stream \<Rightarrow> 'c runtime \<Rightarrow> streamRange \<Rightarrow> string \<Rightarrow>
     ((int \<times> error option) \<times> string \<times> Stream \<times> 'c runtime) option" where
  "readFromChunks P s w sr dest = readLoop P sr 0 0 dest s w"

text \<open>\<open>Stream.Read\<close>; the counter of delivered bytes and the log lines are left out.\<close>

definition Read ::
  "'c Player \<Rightarrow> Stream \<Rightarrow> 'c runtime \<Rightarrow> string \<Rightarrow>
     ((int \<times> error option) \<times> string \<times> Stream \<times> 'c runtime) option" where
  "Read P s w dest =
     (case readFromChunks P s w (getRange P (sint (seekOffset s)) (int (length dest))) dest of
        None \<Rightarrow> None
      | Some ((n, err), dest', s', w') \<Rightarrow>
          Some ((n, err), dest', s'\<lparr>seekOffset := seekOffset s' + word_of_int n\<rparr>, w'))"

section \<open>The request handler\<close>

text \<open>
  \<open>strings.HasPrefix\<close>, \<open>strings.LastIndex\<close> (the index of the last occurrence, or -1) and
  \<open>strings.Contains\<close>.
\<close>

definition strings_HasPrefix :: "string \<Rightarrow> string \<Rightarrow> bool" where
  "strings_HasPrefix s p = (take (length p) s = p)"

fun strings_LastIndex :: "string \<Rightarrow> string \<Rightarrow> int" where
  "strings_LastIndex [] sub = (if sub = [] then 0 else - 1)"
| "strings_LastIndex (c # s) sub =
     (if 0 \<le> strings_LastIndex s sub then strings_LastIndex s sub + 1
      else if strings_HasPrefix (c # s) sub then 0
      else - 1)"

fun strings_Contains :: "string \<Rightarrow> string \<Rightarrow> bool" where
  "strings_Contains [] sub = (sub = [])"
| "strings_Contains (c # s) sub = (strings_HasPrefix (c # s) sub \<or> strings_Contains s sub)"

text \<open>
  What the handler takes from the standard library and the operating system: the
  environment, the host name, the HTTP format of a Unix time, \<open>url.PathEscape\<close>, and the
  letters beyond ASCII of the Unicode category \<open>L\<close>.
\<close>

record stdlib =
  os_Getenv :: "string \<Rightarrow> string"
  os_Hostname :: "string \<times> error option"
  http_TimeFormat :: "int \<Rightarrow> string"
  url_PathEscape :: "ustring \<Rightarrow> ustring"
  unicode_L :: "nat \<Rightarrow> bool"

definition runes :: "string \<Rightarrow> ustring" where
  "runes s = map of_char s"

text \<open>\<open>fmt.Sprintf("%v", n)\<close> for an unsigned number: its decimal digits.\<close>

function decimal :: "nat \<Rightarrow> string" where
  "decimal n = (if n < 10 then [char_of (48 + n)] else decimal (n div 10) @ [char_of (48 + n mod 10)])"
  by pat_completeness auto
termination
  by (relation "measure id") auto

declare decimal.simps [simp del]

text \<open>
  The class of the regular expression \<open>[^\p{L}\d\-\._ ]+\<close> is negated: a rune outside it
  is a letter, an ASCII digit, \<open>-\<close>, \<open>.\<close>, \<open>_\<close> or a space. Replacing every match by the empty
  string keeps exactly those runes.
\<close>

definition isLetter :: "stdlib \<Rightarrow> nat \<Rightarrow> bool" where
  "isLetter L r =
     (if r < 128 then (65 \<le> r \<and> r \<le> 90) \<or> (97 \<le> r \<and> r \<le> 122) else unicode_L L r)"

definition keptRune :: "stdlib \<Rightarrow> nat \<Rightarrow> bool" where
  "keptRune L r = (isLetter L r \<or> (48 \<le> r \<and> r \<le> 57) \<or> r = 45 \<or> r = 46 \<or> r = 95 \<or> r = 32)"

definition sanitizeFilename :: "stdlib \<Rightarrow> ustring \<Rightarrow> ustring" where
  "sanitizeFilename L name = filter (keptRune L) name"

definition Query_Get :: "Request \<Rightarrow> string \<Rightarrow> string" where
  "Query_Get r k = (case Query r k of [] \<Rightarrow> [] | v # _ \<Rightarrow> v)"

definition Header_Set :: "ResponseWriter \<Rightarrow> string \<Rightarrow> ustring \<Rightarrow> ResponseWriter" where
  "Header_Set w k v = w\<lparr>Header := (Header w)(k \<mapsto> [v])\<rparr>"

definition paramDownload :: string where
  "paramDownload = ''download''"

text \<open>\<open>writeHeaders\<close>\<close>

definition writeHeaders ::
  "stdlib \<Rightarrow> 'c Player \<Rightarrow> ResponseWriter \<Rightarrow> Request \<Rightarrow> Stream \<Rightarrow> ResponseWriter" where
  "writeHeaders L P w r s =
     (let playerName =
            (if os_Getenv L ''PLAYER_NAME'' = []
             then (case os_Hostname L of
                     (h, None) \<Rightarrow> h
                   | (h, Some err) \<Rightarrow> ''unknown-player'')
             else os_Getenv L ''PLAYER_NAME'');
          w1 = Header_Set w ''Content-Length'' (runes (decimal (unat (Size s))));
          w2 = Header_Set w1 ''Content-Type'' (runes (ContentType s));
          w3 = Header_Set w2 ''Cache-Control'' (runes ''public, max-age=31536000'');
          w4 = Header_Set w3 ''Last-Modified'' (runes (http_TimeFormat L (Timestamp (claim s))));
          w5 = Header_Set w4 ''X-Powered-By'' (runes playerName);
          w6 = Header_Set w5 ''Access-Control-Expose-Headers'' (runes ''X-Powered-By'')
      in if Query_Get r paramDownload \<noteq> []
         then
           let filename = sanitizeFilename L (Filename P s)
           in Header_Set w6 ''Content-Disposition''
                (runes ''attachment; filename='' @ [34] @ filename @ [34]
                   @ runes ''; filename*=UTF-8'' @ [39, 39] @ url_PathEscape L filename)
         else w6)"

text \<open>\<open>writeErrorResponse\<close> and \<open>processStreamError\<close>; the log line and the report are left out.\<close>

definition writeErrorResponse :: "ResponseWriter \<Rightarrow> int \<Rightarrow> string \<Rightarrow> ResponseWriter" where
  "writeErrorResponse w statusCode msg = w\<lparr>calls := calls w @ [WriteHeader statusCode, Write msg]\<rparr>"

definition processStreamError ::
  "(sentinel \<Rightarrow> string) \<Rightarrow> ResponseWriter \<Rightarrow> error \<Rightarrow> ResponseWriter" where
  "processStreamError txt w err =
     (if errors_Is err errPaidStream then writeErrorResponse w 402 (Error txt err)
      else if errors_Is err errStreamNotFound then writeErrorResponse w 404 (Error txt err)
      else if strings_Contains (Error txt err) ''blob not found''
        then writeErrorResponse w 503 (Error txt err)
      else if strings_Contains (Error txt err) ''hash in response does not match''
        then writeErrorResponse w 503 (Error txt err)
      else if strings_Contains (Error txt err) ''token contains an invalid number of segments''
        then writeErrorResponse w 401 (Error txt err)
      else if strings_Contains (Error txt err) ''crypto/rsa: verification error''
        then writeErrorResponse w 401 (Error txt err)
      else if strings_Contains (Error txt err) ''token is expired''
        then writeErrorResponse w 410 (Error txt err)
      else writeErrorResponse w 500 (Error txt err))"

definition SpeechPrefix :: string where
  "SpeechPrefix = ''/speech/''"

text \<open>
  The first block of \<open>RequestHandler.Handle\<close>: the URI and the token, or no URI when the
  handler answers 404 at once.
\<close>

definition requestURI :: "Request \<Rightarrow> (string \<times> string) option" where
  "requestURI r =
     (if strings_HasPrefix (URL_String r) SpeechPrefix then
        let uri = drop (length SpeechPrefix) (URL_String r);
            extStart = strings_LastIndex uri ''.'';
            uri = (if 0 \<le> extStart then take (nat extStart) uri else uri)
        in if uri = [] then None else Some (uri, [])
      else Some (Vars r ''claim_name'' @ ''#'' @ Vars r ''claim_id'', Vars r ''token''))"

text \<open>
  The rest of \<open>RequestHandler.Handle\<close>, from the resolution of the URI on: the response
  writer and the state it leaves; \<open>None\<close> is a panic. The log lines and the breadcrumbs
  are left out.
\<close>

definition serveStream ::
  "stdlib \<Rightarrow> (sentinel \<Rightarrow> string) \<Rightarrow> 'c Player \<Rightarrow> 'c \<Rightarrow> ResponseWriter \<Rightarrow> Request \<Rightarrow>
     string \<Rightarrow> string \<Rightarrow> (ResponseWriter \<times> 'c) option" where
  "serveStream L txt P c w r uri token =
     (case ResolveStream P c uri of
        (Inl err, c1) \<Rightarrow> Some (processStreamError txt w err, c1)
      | (Inr s, c1) \<Rightarrow>
          (case VerifyAccess P c1 s token of
             (Some err, c2) \<Rightarrow> Some (processStreamError txt w err, c2)
           | (None, c2) \<Rightarrow>
               (case PrepareForReading P s c2 of
                  None \<Rightarrow> None
                | Some (Some err, s', c3) \<Rightarrow> Some (processStreamError txt w err, c3)
                | Some (None, s', c3) \<Rightarrow>
                    let w1 = writeHeaders L P w r s' in
                    if Method r = ''HEAD'' then Some (w1\<lparr>calls := calls w1 @ [WriteHeader 200]\<rparr>, c3)
                    else if Method r = ''GET'' then
                      (case Play P c3 s' w1 r of
                         (Some err, w2, c4) \<Rightarrow> Some (processStreamError txt w2 err, c4)
                       | (None, w2, c4) \<Rightarrow> Some (w2, c4))
                    else Some (w1, c3))))"

text \<open>\<open>RequestHandler.Handle\<close>\<close>

definition Handle ::
  "stdlib \<Rightarrow> (sentinel \<Rightarrow> string) \<Rightarrow> 'c Player \<Rightarrow> 'c \<Rightarrow> ResponseWriter \<Rightarrow> Request \<Rightarrow>
     (ResponseWriter \<times> 'c) option" where
  "Handle L txt P c w r =
     (case requestURI r of
        None \<Rightarrow> Some (w\<lparr>calls := calls w @ [WriteHeader 404]\<rparr>, c)
      | Some (uri, token) \<Rightarrow> serveStream L txt P c w r uri token)"

section \<open>The parts described by the specification only\<close>

text \<open>
  Modelled from the spec: \<open>getRange\<close>, the range of a read; its source file is missing.
  For a buffer of length \<open>L\<close> at offset \<open>O\<close> the first chunk is
  \<open>\<lfloor>O / MaxChunkSize\<rfloor>\<close>, the last is \<open>\<lfloor>(O + L - 1) / MaxChunkSize\<rfloor>\<close>, the offset in the first
  chunk is \<open>O mod MaxChunkSize\<close> and the last chunk is read up to
  \<open>(O + L) - lastChunk * MaxChunkSize\<close>.
\<close>

definition spec_getRange :: "int \<Rightarrow> int \<Rightarrow> int \<Rightarrow> streamRange" where
  "spec_getRange mcs offset readLen =
     \<lparr>FirstChunkIdx = offset div mcs,
      LastChunkIdx = (offset + readLen - 1) div mcs,
      FirstChunkOffset = offset mod mcs,
      LastChunkReadLen = (offset + readLen) - ((offset + readLen - 1) div mcs) * mcs\<rparr>"

text \<open>
  Modelled from the spec: \<open>streamRange.ByteRangeForChunk\<close>, the byte slice of chunk \<open>i\<close>
  inside a range; its source file is missing. The slice goes from the offset
  in the first chunk (from 0 in any other) up to the end of the read in the last chunk (up
  to \<open>MaxChunkSize\<close> in any other); the result is the start and the length.
\<close>

definition spec_ByteRangeForChunk :: "int \<Rightarrow> streamRange \<Rightarrow> int \<Rightarrow> int \<times> int" where
  "spec_ByteRangeForChunk mcs sr i =
     (let offset = (if i = FirstChunkIdx sr then FirstChunkOffset sr else 0);
          stop = (if i = LastChunkIdx sr then LastChunkReadLen sr else mcs)
      in (offset, stop - offset))"

text \<open>
  Modelled from the spec: \<open>ReadableChunk.Read\<close>; its source file is missing. It
  copies at most \<open>min(maxLen, len - offset)\<close> bytes of the chunk to the start of the
  destination and fails with OutOfBounds if the offset is not below the chunk's length.
\<close>

definition spec_chunk_Read ::
  "ReadableChunk \<Rightarrow> int \<Rightarrow> int \<Rightarrow> string \<Rightarrow> (int \<times> error option \<times> string) option" where
  "spec_chunk_Read b offset maxLen dest =
     (let bs = (case b of None \<Rightarrow> [] | Some bs \<Rightarrow> bs) in
      if int (length bs) \<le> offset then Some (0, Some (Sentinel errOutOfBounds), dest)
      else
        let n = min (nat (min maxLen (int (length bs) - offset))) (length dest)
        in Some (int n, None, take n (drop (nat offset) bs) @ drop n dest))"

text \<open>
  Modelled from the spec: the blob source of the player, a hot cache over the disk store
  and the origin; its source files are missing. Each tier is a list of hash and content; decryption is left
  out, the tiers hold the plaintext of a chunk. A chunk is looked up in the hot cache,
  then on disk, then at the origin, and written through the tiers above the one that had
  it; a failure leaves the tiers as they were. \<open>ClearChunk\<close> removes a hash from the hot
  cache and from the disk store.
\<close>

record store =
  hot :: "(string \<times> string) list"
  disk :: "(string \<times> string) list"
  origin :: "(string \<times> string) list"
  descriptors :: "(string \<times> SDBlob) list"

definition store_GetChunk ::
  "store \<Rightarrow> string \<Rightarrow> string \<Rightarrow> string \<Rightarrow> (ReadableChunk \<times> error option) \<times> store" where
  "store_GetChunk c h k iv =
     (case map_of (hot c) h of
        Some b \<Rightarrow> ((Some b, None), c)
      | None \<Rightarrow>
          (case map_of (disk c) h of
             Some b \<Rightarrow> ((Some b, None), c\<lparr>hot := (h, b) # hot c\<rparr>)
           | None \<Rightarrow>
               (case map_of (origin c) h of
                  Some b \<Rightarrow> ((Some b, None), c\<lparr>hot := (h, b) # hot c, disk := (h, b) # disk c\<rparr>)
                | None \<Rightarrow> ((None, Some (errors_New ''blob not found'')), c))))"

definition store_GetSDBlob :: "store \<Rightarrow> string \<Rightarrow> (SDBlob option \<times> error option) \<times> store" where
  "store_GetSDBlob c h =
     (case map_of (descriptors c) h of
        Some sd \<Rightarrow> ((Some sd, None), c)
      | None \<Rightarrow> ((None, Some (errors_New ''blob not found'')), c))"

definition store_IsCached :: "store \<Rightarrow> string \<Rightarrow> bool" where
  "store_IsCached c h = (map_of (hot c) h \<noteq> None)"

definition store_ClearChunk :: "store \<Rightarrow> string \<Rightarrow> error option \<times> store" where
  "store_ClearChunk c h =
     (None, c\<lparr>hot := filter (\<lambda>e. fst e \<noteq> h) (hot c), disk := filter (\<lambda>e. fst e \<noteq> h) (disk c)\<rparr>)"

text \<open>
  The player over these parts, with prefetch on or off, a chunk size and a prefetch
  length. No URI resolves, every token is accepted and nothing is played.
\<close>

definition specPlayer :: "bool \<Rightarrow> int \<Rightarrow> int \<Rightarrow> store Player" where
  "specPlayer pf mcs len =
     \<lparr>prefetch = pf, MaxChunkSize = mcs, DefaultPrefetchLen = len,
      GetSDBlob = store_GetSDBlob, bs_GetChunk = store_GetChunk,
      IsCached = store_IsCached, clearChuckFromCache = store_ClearChunk,
      getRange = spec_getRange mcs, ByteRangeForChunk = spec_ByteRangeForChunk mcs,
      chunk_Read = spec_chunk_Read, GetExtensionByType = (\<lambda>t. []),
      ResolveStream = (\<lambda>c uri. (Inl (Sentinel errStreamNotFound), c)),
      VerifyAccess = (\<lambda>c s token. (None, c)),
      Play = (\<lambda>c s w r. (None, w, c))\<rparr>"

section \<open>Streams used as examples\<close>

definition blob :: "string \<Rightarrow> int \<Rightarrow> BlobInfo" where
  "blob h n = \<lparr>Length = n, BlobNum = 0, BlobHash = h, IV = ''iv''\<rparr>"

definition terminator :: BlobInfo where
  "terminator = \<lparr>Length = 0, BlobNum = 0, BlobHash = [], IV = ''iv''\<rparr>"

definition exampleStream :: "BlobInfo list \<Rightarrow> Stream" where
  "exampleStream bis =
     \<lparr>URI = ''one#1'', Size = 0, ContentType = ''video/mp4'', hash = ''sd'',
      prefetchedChunks = (\<lambda>i. False),
      claim = \<lparr>IsStream = True, NormalizedName = [], Timestamp = 0\<rparr>,
      source = \<lparr>Name = [], SourceSize = 0, MediaType = ''video/mp4'', SdHash = ''sd''\<rparr>,
      sdBlob = Some \<lparr>BlobInfos = bis, Key = ''key''\<rparr>, seekOffset = 0\<rparr>"

definition exampleStore ::
  "(string \<times> string) list \<Rightarrow> (string \<times> string) list \<Rightarrow> BlobInfo list \<Rightarrow> store" where
  "exampleStore h org bis =
     \<lparr>hot = h, disk = [], origin = org,
      descriptors = [(''sd'', \<lparr>BlobInfos = bis, Key = ''key''\<rparr>)]\<rparr>"

definition exampleRuntime :: "(string \<times> string) list \<Rightarrow> (string \<times> string) list \<Rightarrow> store runtime" where
  "exampleRuntime h org = \<lparr>cache = exampleStore h org [], spawned = []\<rparr>"

definition threeBlobs :: "BlobInfo list" where
  "threeBlobs = [blob ''a'' 2097136, blob ''b'' 2097136, blob ''c'' 5000, terminator]"

definition twoChunks :: "BlobInfo list" where
  "twoChunks = [blob ''a'' 6, blob ''b'' 4, terminator]"

definition oneChunk :: "BlobInfo list" where
  "oneChunk = [blob ''a'' 6, terminator]"

text \<open>
  For the prefetch: a store given by its hot cache, its disk cache and its origin; a
  stream of five content blobs; an origin that holds the chunks \<open>a\<close>, \<open>c\<close>, \<open>d\<close> and \<open>e\<close>, and one
  that lacks \<open>d\<close>.
\<close>

definition exampleTiers ::
  "(string \<times> string) list \<Rightarrow> (string \<times> string) list \<Rightarrow> (string \<times> string) list \<Rightarrow> store" where
  "exampleTiers h d org = \<lparr>hot = h, disk = d, origin = org, descriptors = []\<rparr>"

definition fiveBlobs :: "BlobInfo list" where
  "fiveBlobs = [blob ''a'' 2097136, blob ''b'' 2097136, blob ''c'' 2097136, blob ''d'' 2097136,
                blob ''e'' 5000, terminator]"

definition originAll :: "(string \<times> string) list" where
  "originAll = [(''61'', ''hello''), (''63'', ''cc''), (''64'', ''dd''), (''65'', ''ee'')]"

definition originNoD :: "(string \<times> string) list" where
  "originNoD = [(''61'', ''hello''), (''63'', ''cc''), (''65'', ''ee'')]"

definition examplePlayer :: "store Player" where
  "examplePlayer = specPlayer True 2097136 5"

text \<open>
  For the handler: a standard library whose \<open>url.PathEscape\<close> is given for the names the
  examples use (runes below 128 that a sanitized name can hold, where only the space is
  escaped) and whose table of letters beyond ASCII is empty; texts for the sentinel
  errors; a response writer on which nothing was done; a request for a URL with the values
  of its \<open>download\<close> parameter; a stream whose source is named \<open>My Movie!\<close>.
\<close>

definition exampleStdlib :: stdlib where
  "exampleStdlib =
     \<lparr>os_Getenv = (\<lambda>k. []), os_Hostname = (''player1'', None),
      http_TimeFormat = (\<lambda>t. ''Thu, 01 Jan 1970 00:00:00 GMT''),
      url_PathEscape = (\<lambda>name. concat (map (\<lambda>c. if c = 32 then runes ''%20'' else [c]) name)),
      unicode_L = (\<lambda>c. False)\<rparr>"

definition exampleTexts :: "sentinel \<Rightarrow> string" where
  "exampleTexts x = ''sentinel''"

definition exampleWriter :: ResponseWriter where
  "exampleWriter = \<lparr>Header = Map.empty, calls = []\<rparr>"

definition exampleRequest :: "string \<Rightarrow> string list \<Rightarrow> Request" where
  "exampleRequest url download =
     \<lparr>URL_String = url, Method = ''GET'',
      Vars = (\<lambda>k. if k = ''claim_name'' then ''one'' else if k = ''claim_id'' then ''1'' else []),
      Query = (\<lambda>k. if k = ''download'' then download else [])\<rparr>"

definition movieStream :: Stream where
  "movieStream = (exampleStream oneChunk)\<lparr>source :=
     \<lparr>Name = runes ''My Movie!'', SourceSize = 5, MediaType = ''video/mp4'', SdHash = ''sd''\<rparr>\<rparr>"

section \<open>The size of a stream, as a function of what determines it\<close>

text \<open>
  The size that \<open>PrepareForReading\<close> is to leave, by precedence, for a stream \<open>s\<close>, the
  descriptor \<open>sd\<close> that was fetched and the state \<open>c\<close> of the blob source after that fetch:
  a positive size stays; else a positive size of the claim's source; else, for a claim that
  is a stream, 0 when the descriptor has no content blob, and \<open>MaxChunkSize * (n - 2)\<close> plus the
  length of the last chunk before the terminator when that chunk is fetched without error;
  else the sum over all blob infos minus 16.
\<close>

definition lastChunkFetch :: "'c Player \<Rightarrow> SDBlob \<Rightarrow> 'c \<Rightarrow> ReadableChunk \<times> error option" where
  "lastChunkFetch P sd c =
     (let bi = BlobInfos sd ! (length (BlobInfos sd) - 2)
      in fst (bs_GetChunk P c (hex_EncodeToString (BlobHash bi)) (Key sd) (IV bi)))"

definition precedenceSize :: "'c Player \<Rightarrow> Stream \<Rightarrow> SDBlob \<Rightarrow> 'c \<Rightarrow> uint64" where
  "precedenceSize P s sd c =
     (if 0 < Size s then Size s
      else if 0 < SourceSize (source s) then SourceSize (source s)
      else if IsStream (claim s) \<and> length (BlobInfos sd) \<le> 1 then 0
      else if IsStream (claim s) \<and> snd (lastChunkFetch P sd c) = None
        then word_of_int (MaxChunkSize P) * word_of_int (int (length (BlobInfos sd)) - 2)
               + word_of_int (chunk_len (fst (lastChunkFetch P sd c)))
      else sumBlobs P (BlobInfos sd) 0 - 16)"

section \<open>The window of a prefetch\<close>

text \<open>
  The blob infos that a prefetch launched after the fetch of chunk \<open>i\<close> is to visit: at most
  \<open>DefaultPrefetchLen\<close> of them from index \<open>i + 1\<close> on, none at or after the terminator, which
  is the last of the \<open>n\<close> blob infos (so at most \<open>n - i - 2\<close>).
\<close>

definition prefetchWindow :: "'c Player \<Rightarrow> SDBlob \<Rightarrow> int \<Rightarrow> BlobInfo list" where
  "prefetchWindow P sd i =
     take (nat (min (DefaultPrefetchLen P) (int (length (BlobInfos sd)) - i - 2)))
       (drop (nat (i + 1)) (BlobInfos sd))"

text \<open>
  What the loop of \<open>prefetchChunk\<close> is to do with a window \<open>win\<close> from the state \<open>c\<close> of the blob
  source, stated on the sequence of states and not by recursion. The visit of one blob info
  in a state: a hash that \<open>IsCached\<close> reports is passed over and the state stays; another is
  asked for with the blob source's \<open>GetChunk\<close>, and the state is the one that call leaves.
  The visit fails when the hash was not cached and that call returned an error.
\<close>

definition visitStep :: "'c Player \<Rightarrow> SDBlob \<Rightarrow> 'c \<Rightarrow> BlobInfo \<Rightarrow> 'c" where
  "visitStep P sd c bi =
     (if IsCached P c (hex_EncodeToString (BlobHash bi)) then c
      else snd (bs_GetChunk P c (hex_EncodeToString (BlobHash bi)) (Key sd) (IV bi)))"

definition visitFails :: "'c Player \<Rightarrow> SDBlob \<Rightarrow> 'c \<Rightarrow> BlobInfo \<Rightarrow> bool" where
  "visitFails P sd c bi =
     (\<not> IsCached P c (hex_EncodeToString (BlobHash bi))
      \<and> snd (fst (bs_GetChunk P c (hex_EncodeToString (BlobHash bi)) (Key sd) (IV bi))) \<noteq> None)"

text \<open>
  \<open>visitsOf P sd win cs m fetched\<close>: the first \<open>m\<close> blob infos of the window were visited, in
  order, \<open>cs ! k\<close> being the state before visit \<open>k\<close> and \<open>cs ! m\<close> the state at the end; a visit
  that fails is the last one; the visits stop before the end of the window only after a
  visit that failed; \<open>fetched\<close> lists, in order, each blob info that was asked for with the
  state in which it was asked for, and nothing else. \<open>windowRun\<close> is such a sequence of visits
  from \<open>c\<close> to \<open>c'\<close>.
\<close>

definition visitsOf ::
  "'c Player \<Rightarrow> SDBlob \<Rightarrow> BlobInfo list \<Rightarrow> 'c list \<Rightarrow> nat \<Rightarrow> (BlobInfo \<times> 'c) list \<Rightarrow> bool" where
  "visitsOf P sd win cs m fetched =
     (m \<le> length win \<and> length cs = Suc m
        \<and> (\<forall>k<m. cs ! Suc k = visitStep P sd (cs ! k) (win ! k))
        \<and> (\<forall>k<m. visitFails P sd (cs ! k) (win ! k) \<longrightarrow> Suc k = m)
        \<and> (m < length win \<longrightarrow> (\<exists>j. m = Suc j \<and> visitFails P sd (cs ! j) (win ! j)))
        \<and> fetched = map (\<lambda>k. (win ! k, cs ! k))
                      (filter (\<lambda>k. \<not> IsCached P (cs ! k) (hex_EncodeToString (BlobHash (win ! k))))
                         [0..<m]))"

definition windowRun ::
  "'c Player \<Rightarrow> SDBlob \<Rightarrow> BlobInfo list \<Rightarrow> 'c \<Rightarrow> (BlobInfo \<times> 'c) list \<Rightarrow> 'c \<Rightarrow> bool" where
  "windowRun P sd win c fetched c' =
     (\<exists>cs m. visitsOf P sd win cs m fetched \<and> cs ! 0 = c \<and> cs ! m = c')"

section \<open>Where the errors of a read come from\<close>

text \<open>
  An error of the chunk layer: the error of the index guard, an error returned by the blob
  source's \<open>GetChunk\<close>, by a chunk's \<open>Read\<close> or by \<open>clearChuckFromCache\<close>.
\<close>

definition chunkLayerError :: "'c Player \<Rightarrow> error \<Rightarrow> bool" where
  "chunkLayerError P err =
     (err = errors_New ''blob index out of bounds''
      \<or> (\<exists>c h k iv. snd (fst (bs_GetChunk P c h k iv)) = Some err)
      \<or> (\<exists>b off len d r. chunk_Read P b off len d = Some r \<and> fst (snd r) = Some err)
      \<or> (\<exists>c h. fst (clearChuckFromCache P c h) = Some err))"

section \<open>Seeking\<close>

lemma float64_of_int64_exact:
  assumes "\<bar>x\<bar> \<le> 2 ^ 53"
  shows "float64_of_int64 x = x"
proof (cases "\<bar>x\<bar> < 2 ^ 53")
  case True
  then show ?thesis
    by (simp add: float64_of_int64_def upt_conv_Cons Let_def mult_sgn_abs)
next
  case False
  with assms consider "x = 9007199254740992" | "x = - 9007199254740992" by fastforce
  then show ?thesis
  proof cases
    case 1
    show ?thesis unfolding 1 by (simp add: float64_of_int64_def upt_conv_Cons Let_def)
  next
    case 2
    show ?thesis unfolding 2 by (simp add: float64_of_int64_def upt_conv_Cons Let_def)
  qed
qed

text \<open>
  While the offset is at most \<open>2 ^ 53\<close> in absolute value its conversion to \<open>float64\<close> is
  exact, and \<open>Seek\<close> behaves as described: StreamSizeZero first, OutOfBounds when the
  absolute offset exceeds the size, SeekingBeforeStart when the new offset (in 64-bit
  arithmetic) is negative, the new offset stored and returned otherwise; a failure leaves
  the stream as it was.
\<close>

lemma Seek_exact_range:
  assumes "\<bar>sint offset\<bar> \<le> 2 ^ 53"
  shows "(Size s = 0 \<longrightarrow> Seek s offset whence = ((0, Some (Sentinel errStreamSizeZero)), s))
    \<and> (Size s \<noteq> 0 \<and> uint (Size s) < \<bar>sint offset\<bar> \<longrightarrow>
          Seek s offset whence = ((0, Some (Sentinel errOutOfBounds)), s))
    \<and> (Size s \<noteq> 0 \<and> \<bar>sint offset\<bar> \<le> uint (Size s)
          \<and> whence \<in> {io_SeekStart, io_SeekCurrent, io_SeekEnd} \<longrightarrow>
          (let newOffset = (if whence = io_SeekStart then offset
                            else if whence = io_SeekCurrent then seekOffset s + offset
                            else Size s - offset)
           in if sint newOffset < 0
              then Seek s offset whence = ((0, Some (Sentinel errSeekingBeforeStart)), s)
              else Seek s offset whence = ((newOffset, None), s\<lparr>seekOffset := newOffset\<rparr>)))
    \<and> (snd (fst (Seek s offset whence)) \<noteq> None \<longrightarrow> snd (Seek s offset whence) = s)"
proof -
  have f: "float64_of_int64 (sint offset) = sint offset"
    using assms by (rule float64_of_int64_exact)
  have "\<bar>sint offset\<bar> < 2 ^ 64" using assms by simp
  then have u: "uint (word_of_int \<bar>sint offset\<bar> :: 64 word) = \<bar>sint offset\<bar>"
    by (simp add: uint_word_of_int take_bit_eq_mod)
  have lt: "(Size s < word_of_int \<bar>sint offset\<bar>) = (uint (Size s) < \<bar>sint offset\<bar>)"
    by (simp add: word_less_def u)
  show ?thesis
    by (auto simp add: Seek_def f lt Let_def io_SeekStart_def io_SeekCurrent_def io_SeekEnd_def)
qed

text \<open>
  C4. \<open>Seek\<close> compares the size with the offset converted to \<open>float64\<close>. On a stream of
  size \<open>2 ^ 53\<close> the offset \<open>2 ^ 53 + 1\<close> exceeds the size, but its conversion rounds to
  \<open>2 ^ 53\<close>: \<open>Seek\<close> from the start does not fail with OutOfBounds, it stores and returns
  the offset \<open>2 ^ 53 + 1\<close>.
\<close>

theorem Seek_rounds_offset:
  "Seek ((exampleStream [])\<lparr>Size := 9007199254740992\<rparr>) 9007199254740993 io_SeekStart =
     ((9007199254740993, None),
      (exampleStream [])\<lparr>Size := 9007199254740992, seekOffset := 9007199254740993\<rparr>)"
  by (simp add: Seek_def exampleStream_def io_SeekStart_def io_SeekCurrent_def io_SeekEnd_def
      float64_of_int64_def upt_conv_Cons Let_def)

section \<open>The index guard\<close>

text \<open>
  C10. \<open>GetChunk\<close> and \<open>RemoveChunk\<close> return the error "blob index out of bounds" only for
  an index above the number of blob infos. For the index equal to that number and for
  every negative index the guard passes and the access to the blob infos is out of range:
  the call panics, it does not return the error. For an index from 0 below the number of
  blob infos neither call panics.
\<close>

theorem GetChunk_RemoveChunk_guard:
  assumes "sdBlob s = Some sd"
  shows "(int (length (BlobInfos sd)) < chunkIdx \<longrightarrow>
            GetChunk P s w chunkIdx
              = Some ((None, Some (errors_New ''blob index out of bounds'')), s, w)
          \<and> RemoveChunk P s w chunkIdx = Some (Some (errors_New ''blob index out of bounds''), w))
       \<and> (chunkIdx = int (length (BlobInfos sd)) \<or> chunkIdx < 0 \<longrightarrow>
            GetChunk P s w chunkIdx = None \<and> RemoveChunk P s w chunkIdx = None)
       \<and> (0 \<le> chunkIdx \<and> chunkIdx < int (length (BlobInfos sd)) \<longrightarrow>
            GetChunk P s w chunkIdx \<noteq> None \<and> RemoveChunk P s w chunkIdx \<noteq> None)"
  using assms
  by (auto simp add: GetChunk_def RemoveChunk_def go_index_def Let_def
      split: prod.splits option.splits)

theorem GetChunk_RemoveChunk_guard_witness:
  "GetChunk (examplePlayer) (exampleStream [blob ''a'' 6, terminator])
       (exampleRuntime [] []) 2 = None
   \<and> RemoveChunk (examplePlayer) (exampleStream [blob ''a'' 6, terminator])
       (exampleRuntime [] []) 2 = None
   \<and> GetChunk (examplePlayer) (exampleStream [blob ''a'' 6, terminator])
       (exampleRuntime [] []) (- 1) = None
   \<and> RemoveChunk (examplePlayer) (exampleStream [blob ''a'' 6, terminator])
       (exampleRuntime [] []) 3 = Some (Some (errors_New ''blob index out of bounds''), exampleRuntime [] [])
   \<and> GetChunk (examplePlayer) (exampleStream [blob ''a'' 6, terminator])
       (exampleRuntime [] []) 0 \<noteq> None"
proof -
  let ?sd = "\<lparr>BlobInfos = [blob ''a'' 6, terminator], Key = ''key''\<rparr>"
  have sd: "sdBlob (exampleStream [blob ''a'' 6, terminator]) = Some ?sd"
    by (simp add: exampleStream_def)
  show ?thesis
    using GetChunk_RemoveChunk_guard [OF sd, of 2 examplePlayer "exampleRuntime [] []"]
      GetChunk_RemoveChunk_guard [OF sd, of "- 1" examplePlayer "exampleRuntime [] []"]
      GetChunk_RemoveChunk_guard [OF sd, of 3 examplePlayer "exampleRuntime [] []"]
      GetChunk_RemoveChunk_guard [OF sd, of 0 examplePlayer "exampleRuntime [] []"]
    by simp
qed

section \<open>The examples, evaluated\<close>

lemma hex_EncodeToString_a: "hex_EncodeToString ''a'' = ''61''"
  by (simp add: hex_EncodeToString_def hextable_def)

lemma hex_EncodeToString_b: "hex_EncodeToString ''b'' = ''62''"
  by (simp add: hex_EncodeToString_def hextable_def)

lemma hex_EncodeToString_c: "hex_EncodeToString ''c'' = ''63''"
  by (simp add: hex_EncodeToString_def hextable_def)

lemma hex_EncodeToString_d: "hex_EncodeToString ''d'' = ''64''"
  by (simp add: hex_EncodeToString_def hextable_def)

lemma hex_EncodeToString_e: "hex_EncodeToString ''e'' = ''65''"
  by (simp add: hex_EncodeToString_def hextable_def)

lemmas example_defs = examplePlayer_def specPlayer_def exampleStream_def exampleStore_def
  exampleRuntime_def twoChunks_def blob_def terminator_def store_GetChunk_def
  store_ClearChunk_def store_IsCached_def spec_chunk_Read_def spec_ByteRangeForChunk_def
  spec_getRange_def go_index_def go_slice_def go_slice_from_def

text \<open>
  A pass over the first four bytes of a stream of one chunk reads them and stops at
  index 1. \<open>Read\<close> then leaves the four bytes in the buffer and returns the count that
  \<open>readFromChunks\<close> declares before its loop, which no pass assigns: 0.
\<close>

lemma example_attempt_first_chunk:
  "attemptReadFromChunks examplePlayer ((exampleStream oneChunk)\<lparr>Size := 5\<rparr>)
     (exampleRuntime [] [(''61'', ''hello'')]) (getRange examplePlayer 0 4) ''....''
   = Some ((1, 4, None), ''hell'',
        (exampleStream oneChunk)\<lparr>Size := 5, prefetchedChunks := (\<lambda>i. False)(1 := True)\<rparr>,
        \<lparr>cache = (exampleStore [(''61'', ''hello'')] [(''61'', ''hello'')] [])
                   \<lparr>disk := [(''61'', ''hello'')]\<rparr>,
         spawned = [1]\<rparr>)"
  by (simp add: attemptReadFromChunks_def attemptLoop.simps [of _ _ 0] attemptLoop.simps [of _ _ 1]
      GetChunk_def hex_EncodeToString_a oneChunk_def example_defs Let_def)

lemma example_Read_first_chunk:
  "Read examplePlayer ((exampleStream oneChunk)\<lparr>Size := 5\<rparr>)
     (exampleRuntime [] [(''61'', ''hello'')]) ''....''
   = Some ((0, None), ''hell'',
        (exampleStream oneChunk)\<lparr>Size := 5, prefetchedChunks := (\<lambda>i. False)(1 := True)\<rparr>,
        \<lparr>cache = (exampleStore [(''61'', ''hello'')] [(''61'', ''hello'')] [])
                   \<lparr>disk := [(''61'', ''hello'')]\<rparr>,
         spawned = [1]\<rparr>)"
proof -
  have s: "sint (seekOffset ((exampleStream oneChunk)\<lparr>Size := 5\<rparr>)) = 0"
    by (simp add: exampleStream_def)
  show ?thesis
    unfolding Read_def readFromChunks_def s
    by (simp add: readLoop.simps [of _ _ 0] example_attempt_first_chunk)
qed

text \<open>With no blob at the origin the pass fails at index 0.\<close>

lemma example_attempt_not_found:
  "attemptReadFromChunks examplePlayer (exampleStream oneChunk) (exampleRuntime [] [])
     (getRange examplePlayer 0 4) ''....''
   = Some ((0, 0, Some (errors_New ''blob not found'')), ''....'',
        exampleStream oneChunk, exampleRuntime [] [])"
  by (simp add: attemptReadFromChunks_def attemptLoop.simps [of _ _ 0]
      GetChunk_def hex_EncodeToString_a oneChunk_def example_defs Let_def)

text \<open>The chunk layer of the example player never returns \<open>io.EOF\<close>.\<close>

lemma examplePlayer_no_EOF: "\<not> chunkLayerError examplePlayer (Sentinel io_EOF)"
  by (auto simp add: chunkLayerError_def examplePlayer_def specPlayer_def store_GetChunk_def
      store_ClearChunk_def spec_chunk_Read_def Let_def split: option.splits if_splits)

section \<open>The size of a stream\<close>

lemma GetChunk_Size:
  "GetChunk P s w i = Some (r, s', w') \<Longrightarrow> Size s' = Size s"
  by (auto simp add: GetChunk_def Let_def split: option.splits if_splits prod.splits)

lemma attemptLoop_Size:
  "attemptLoop P sr i read dest s w = Some (r, d', s', w') \<Longrightarrow> Size s' = Size s"
proof (induction P sr i read dest s w arbitrary: r d' s' w' rule: attemptLoop.induct)
  case (1 P sr i read dest s w)
  from "1.prems" show ?case
    apply (subst (asm) attemptLoop.simps)
    apply (auto split: if_splits prod.splits option.splits dest: GetChunk_Size)
    apply (frule GetChunk_Size)
    apply (drule "1.IH"[rotated -1]; (simp (no_asm_simp))?)
    done
qed

lemma readLoop_Size:
  "readLoop P sr i read dest s w = Some (r, d', s', w') \<Longrightarrow> Size s' = Size s"
proof (induction P sr i read dest s w arbitrary: r d' s' w' rule: readLoop.induct)
  case (1 P sr i read dest s w)
  from "1.prems" show ?case
    apply (subst (asm) readLoop.simps)
    apply (auto simp add: attemptReadFromChunks_def split: if_splits prod.splits option.splits
        dest: attemptLoop_Size)
    apply (frule attemptLoop_Size)
    apply (drule "1.IH"[rotated -1]; (simp (no_asm_simp) add: attemptReadFromChunks_def)?)
    done
qed

lemma Read_Size:
  "Read P s w dest = Some (r, d', s', w') \<Longrightarrow> Size s' = Size s"
  by (auto simp add: Read_def readFromChunks_def split: option.splits prod.splits
      dest: readLoop_Size)

lemma Seek_Size: "Size (snd (Seek s offset whence)) = Size s"
  by (simp add: Seek_def Let_def)

lemma getStreamSize_error_zero:
  "getStreamSizeFromLastBlobSize P s c = Some ((sz, Some err), c') \<Longrightarrow> sz = 0"
  by (auto simp add: getStreamSizeFromLastBlobSize_def Let_def
      split: if_splits option.splits prod.splits)

lemma PrepareForReading_positive:
  "0 < Size s \<Longrightarrow> PrepareForReading P s c = Some (e, s', c') \<Longrightarrow> Size s' = Size s"
  by (auto simp add: PrepareForReading_def setSize_def split: prod.splits option.splits)

lemma setSize_cases:
  assumes "setSize P s c = Some (s', c')"
  shows "if 0 < Size s \<or> 0 < SourceSize (source s) then Size s' = precedenceSize P s sd0 c
         else \<exists>sd. sdBlob s = Some sd \<and> Size s' = precedenceSize P s sd c"
proof (cases "0 < Size s")
  case True
  with assms show ?thesis by (simp add: setSize_def precedenceSize_def)
next
  case z: False
  show ?thesis
  proof (cases "0 < SourceSize (source s)")
    case True
    with z assms show ?thesis by (auto simp add: setSize_def precedenceSize_def)
  next
    case sz: False
    from assms z sz obtain res where
      g: "getStreamSizeFromLastBlobSize P s c = Some res"
      by (auto simp add: setSize_def split: option.splits)
    show ?thesis
    proof (cases "IsStream (claim s)")
      case False
      with assms z sz show ?thesis
        by (auto simp add: setSize_def getStreamSizeFromLastBlobSize_def precedenceSize_def
            split: option.splits)
    next
      case st: True
      with g obtain sd where sd: "sdBlob s = Some sd"
        by (auto simp add: getStreamSizeFromLastBlobSize_def split: option.splits)
      show ?thesis
      proof (cases "length (BlobInfos sd) \<le> 1")
        case True
        with assms z sz st sd show ?thesis
          by (auto simp add: setSize_def getStreamSizeFromLastBlobSize_def precedenceSize_def)
      next
        case False
        then have n: "nat (int (length (BlobInfos sd)) - 2) = length (BlobInfos sd) - 2"
          by simp
        from False have m: "int (length (BlobInfos sd)) - 1 - 1 = int (length (BlobInfos sd)) - 2"
          by simp
        from False assms z sz st sd show ?thesis
          by (auto simp add: setSize_def getStreamSizeFromLastBlobSize_def go_index_def Let_def
              n m precedenceSize_def lastChunkFetch_def split: option.splits prod.splits)
      qed
    qed
  qed
qed

lemma setSize_sdBlob: "setSize P s c = Some (s', c') \<Longrightarrow> sdBlob s' = sdBlob s"
  by (auto simp add: setSize_def split: if_splits option.splits prod.splits)

text \<open>
  C1, as amended. When \<open>PrepareForReading\<close> succeeds, the descriptor it fetched is stored
  and the size is the one given by \<open>precedenceSize\<close>: a positive size is left unchanged; else
  a positive size of the claim's source is taken; else, if the claim is a stream and the
  descriptor has at most one blob info, the size is 0; else, if the claim is a stream and
  the last chunk before the terminator is fetched without error, the size is
  \<open>MaxChunkSize * (n - 2)\<close> plus the length of that chunk; else it is the sum over all blob
  infos (\<open>MaxChunkSize\<close> for a length of \<open>MaxBlobSize\<close>, the length minus 1 otherwise) minus
  16, in 64-bit arithmetic. A positive size is not changed by another \<open>PrepareForReading\<close>,
  and no \<open>Seek\<close> or \<open>Read\<close> changes the size.
\<close>

theorem PrepareForReading_size_precedence:
  "(PrepareForReading P s c = Some (None, s', c') \<longrightarrow>
      (\<exists>sd c1. GetSDBlob P c (hash s) = ((sdBlob s', None), c1)
         \<and> (sdBlob s' = Some sd \<or> sdBlob s' = None \<and> (0 < Size s \<or> 0 < SourceSize (source s)))
         \<and> Size s' = precedenceSize P s sd c1))
   \<and> (0 < Size s \<and> PrepareForReading P s c = Some (e, s2, c2) \<longrightarrow> Size s2 = Size s)
   \<and> Size (snd (Seek s offset whence)) = Size s
   \<and> (Read P s w dest = Some (r, d3, s3, w3) \<longrightarrow> Size s3 = Size s)"
proof -
  have a: "\<exists>sd c1. GetSDBlob P c (hash s) = ((sdBlob s', None), c1)
         \<and> (sdBlob s' = Some sd \<or> sdBlob s' = None \<and> (0 < Size s \<or> 0 < SourceSize (source s)))
         \<and> Size s' = precedenceSize P s sd c1"
    if p: "PrepareForReading P s c = Some (None, s', c')"
  proof -
    from p obtain sdo c1 where
      g: "GetSDBlob P c (hash s) = ((sdo, None), c1)" and
      ss: "setSize P (s\<lparr>sdBlob := sdo\<rparr>) c1 = Some (s', c')"
      by (auto simp add: PrepareForReading_def split: prod.splits option.splits)
    from ss have b: "sdBlob s' = sdo" by (auto dest: setSize_sdBlob)
    have pe: "precedenceSize P (s\<lparr>sdBlob := x\<rparr>) d c1 = precedenceSize P s d c1" for d x
      by (simp add: precedenceSize_def)
    show ?thesis
    proof (cases "0 < Size s \<or> 0 < SourceSize (source s)")
      case True
      obtain d0 :: SDBlob where
        "d0 = (case sdo of Some d \<Rightarrow> d | None \<Rightarrow> \<lparr>BlobInfos = [], Key = []\<rparr>)"
        by simp
      with setSize_cases [OF ss, of d0] True g b show ?thesis
        by (cases sdo) (auto simp add: pe)
    next
      case False
      with setSize_cases [OF ss] g b show ?thesis
        by (auto simp add: pe)
    qed
  qed
  show ?thesis
    using a by (auto simp add: Seek_Size dest: Read_Size PrepareForReading_positive)
qed

theorem PrepareForReading_size_precedence_witness:
  "PrepareForReading examplePlayer (exampleStream []) (exampleStore [] [(''62'', ''wor'')] twoChunks)
     = Some (None, (exampleStream twoChunks)\<lparr>Size := 2097139\<rparr>,
             (exampleStore [(''62'', ''wor'')] [(''62'', ''wor'')] twoChunks)
               \<lparr>disk := [(''62'', ''wor'')]\<rparr>)
   \<and> precedenceSize examplePlayer (exampleStream []) \<lparr>BlobInfos = twoChunks, Key = ''key''\<rparr>
        (exampleStore [] [(''62'', ''wor'')] twoChunks) = 2097139
   \<and> PrepareForReading examplePlayer ((exampleStream [])\<lparr>Size := 7\<rparr>)
        (exampleStore [] [] twoChunks)
     = Some (None, (exampleStream twoChunks)\<lparr>Size := 7\<rparr>, exampleStore [] [] twoChunks)
   \<and> Size ((exampleStream oneChunk)\<lparr>Size := 5, prefetchedChunks := (\<lambda>i. False)(1 := True)\<rparr>)
     = Size ((exampleStream oneChunk)\<lparr>Size := 5\<rparr>)"
proof -
  have e: "PrepareForReading examplePlayer (exampleStream [])
             (exampleStore [] [(''62'', ''wor'')] twoChunks)
     = Some (None, (exampleStream twoChunks)\<lparr>Size := 2097139\<rparr>,
             (exampleStore [(''62'', ''wor'')] [(''62'', ''wor'')] twoChunks)
               \<lparr>disk := [(''62'', ''wor'')]\<rparr>)"
    by (simp add: PrepareForReading_def examplePlayer_def specPlayer_def exampleStream_def
        exampleStore_def store_GetSDBlob_def setSize_def getStreamSizeFromLastBlobSize_def
        go_index_def blob_def terminator_def store_GetChunk_def hex_EncodeToString_def
        hextable_def chunk_len_def Let_def twoChunks_def)
  have p: "0 < Size ((exampleStream [])\<lparr>Size := 7\<rparr>)
      \<and> PrepareForReading examplePlayer ((exampleStream [])\<lparr>Size := 7\<rparr>)
            (exampleStore [] [] twoChunks)
          = Some (None, (exampleStream twoChunks)\<lparr>Size := 7\<rparr>, exampleStore [] [] twoChunks)"
    by (simp add: PrepareForReading_def examplePlayer_def specPlayer_def exampleStream_def
        exampleStore_def store_GetSDBlob_def setSize_def)
  from PrepareForReading_size_precedence [of examplePlayer "exampleStream []"
      "exampleStore [] [(''62'', ''wor'')] twoChunks"
      "(exampleStream twoChunks)\<lparr>Size := 2097139\<rparr>"
      "(exampleStore [(''62'', ''wor'')] [(''62'', ''wor'')] twoChunks)\<lparr>disk := [(''62'', ''wor'')]\<rparr>"]
    e
  have a: "precedenceSize examplePlayer (exampleStream [])
             \<lparr>BlobInfos = twoChunks, Key = ''key''\<rparr>
             (exampleStore [] [(''62'', ''wor'')] twoChunks) = 2097139"
    by (simp add: examplePlayer_def specPlayer_def exampleStream_def
        exampleStore_def store_GetSDBlob_def)
  from PrepareForReading_size_precedence [where P = examplePlayer
      and s = "(exampleStream [])\<lparr>Size := 7\<rparr>" and c = "exampleStore [] [] twoChunks"
      and e = None and ?s2.0 = "(exampleStream twoChunks)\<lparr>Size := 7\<rparr>"
      and ?c2.0 = "exampleStore [] [] twoChunks"] p
  have b: "Size ((exampleStream twoChunks)\<lparr>Size := 7\<rparr>) = Size ((exampleStream [])\<lparr>Size := 7\<rparr>)"
    by blast
  from PrepareForReading_size_precedence [where P = examplePlayer
      and s = "(exampleStream oneChunk)\<lparr>Size := 5\<rparr>"
      and w = "exampleRuntime [] [(''61'', ''hello'')]" and dest = "''....''"]
    example_Read_first_chunk
  have c: "Size ((exampleStream oneChunk)\<lparr>Size := 5,
                    prefetchedChunks := (\<lambda>i. False)(1 := True)\<rparr>)
           = Size ((exampleStream oneChunk)\<lparr>Size := 5\<rparr>)"
    by blast
  from e a p b c show ?thesis by simp
qed

text \<open>
  For a descriptor that holds the terminator only, no chunk before the terminator exists
  to be fetched, and the sum over the blob infos minus 16 is \<open>2 ^ 64 - 17\<close>; the size that
  \<open>PrepareForReading\<close> leaves is 0.
\<close>

theorem PrepareForReading_terminator_only:
  "map_option (\<lambda>r. Size (fst (snd r)))
     (PrepareForReading examplePlayer (exampleStream []) (exampleStore [] [] [terminator]))
     = Some 0
   \<and> sumBlobs examplePlayer [terminator] 0 - 16 = 18446744073709551599"
  by (simp add: PrepareForReading_def examplePlayer_def specPlayer_def exampleStream_def
        exampleStore_def store_GetSDBlob_def setSize_def getStreamSizeFromLastBlobSize_def
        terminator_def MaxBlobSize_def)

text \<open>
  C2, as amended. For a descriptor whose blob infos have the lengths 2097136, 2097136, 5000
  and 0, when the size is not known, the claim's source gives none and the size from the
  last chunk fails, \<open>setSize\<close> leaves the size 4199252: no length equals \<open>MaxBlobSize\<close>, so the
  sum is \<open>2097135 + 2097135 + 4999 + (2 ^ 64 - 1)\<close>, less 16, modulo \<open>2 ^ 64\<close>.
\<close>

theorem setSize_heuristic_sum:
  assumes "Size s = 0" and "SourceSize (source s) = 0" and "sdBlob s = Some sd"
    and "map Length (BlobInfos sd) = [2097136, 2097136, 5000, 0]"
    and "getStreamSizeFromLastBlobSize P s c = Some ((sz, Some err), c')"
  shows "setSize P s c = Some (s\<lparr>Size := 4199252\<rparr>, c')"
proof -
  from assms(5) have z: "sz = 0" by (rule getStreamSize_error_zero)
  from assms(4) obtain b1 b2 b3 b4 where
    b: "BlobInfos sd = [b1, b2, b3, b4]" and
    l: "Length b1 = 2097136" "Length b2 = 2097136" "Length b3 = 5000" "Length b4 = 0"
    by (auto simp add: map_eq_Cons_conv)
  have "sumBlobs P (BlobInfos sd) 0 - 16 = 4199252"
    by (simp add: b l MaxBlobSize_def)
  with assms z show ?thesis
    by (simp add: setSize_def)
qed

theorem setSize_heuristic_sum_witness:
  "setSize examplePlayer (exampleStream threeBlobs) (exampleStore [] [] threeBlobs)
     = Some ((exampleStream threeBlobs)\<lparr>Size := 4199252\<rparr>, exampleStore [] [] threeBlobs)"
proof -
  have g: "getStreamSizeFromLastBlobSize examplePlayer (exampleStream threeBlobs)
             (exampleStore [] [] threeBlobs)
           = Some ((0, Some (errors_New ''blob not found'')), exampleStore [] [] threeBlobs)"
    by (simp add: examplePlayer_def specPlayer_def exampleStream_def
        exampleStore_def getStreamSizeFromLastBlobSize_def threeBlobs_def
        go_index_def blob_def terminator_def store_GetChunk_def Let_def)
  show ?thesis
    by (rule setSize_heuristic_sum
          [where sd = "\<lparr>BlobInfos = threeBlobs, Key = ''key''\<rparr>", OF _ _ _ _ g])
      (simp_all add: exampleStream_def threeBlobs_def blob_def terminator_def)
qed

text \<open>On that stream, with no blob at the origin, the size left is not 4199191.\<close>

theorem setSize_heuristic_sum_counterexample:
  "map_option (\<lambda>r. Size (fst r))
     (setSize examplePlayer (exampleStream threeBlobs) (exampleStore [] [] threeBlobs))
   \<noteq> Some 4199191"
  by (simp add: examplePlayer_def specPlayer_def exampleStream_def setSize_def
        exampleStore_def getStreamSizeFromLastBlobSize_def threeBlobs_def
        go_index_def blob_def terminator_def store_GetChunk_def Let_def MaxBlobSize_def)

section \<open>Reading\<close>

text \<open>
  The count that \<open>readFromChunks\<close> returns without an error is the variable declared
  before the loop, which is never assigned.
\<close>

lemma readFromChunks_no_count:
  "readFromChunks P s w sr dest = Some ((n, None), d', s', w') \<Longrightarrow> n = 0"
  by (auto simp add: readFromChunks_def readLoop.simps [of _ _ 0] readLoop.simps [of _ _ 1]
      readLoop.simps [of _ _ 2] split: option.splits prod.splits if_splits)

text \<open>
  C3, as amended. Let the first pass over the range end without a panic. If it returns an
  error, \<open>readFromChunks\<close> returns that error at once, with no purge and no retry. If it
  read bytes, \<open>readFromChunks\<close> returns without an error, with no purge and no retry. If
  it read nothing and returned no error, the chunk at the index where the pass stopped
  is removed (\<open>RemoveChunk\<close>, which for an index in range clears the hash of that blob info
  from the cache); when the removal panics or fails, \<open>readFromChunks\<close> panics or returns
  the removal's error, with no retry; otherwise the pass is run once more. An error of the
  second pass is returned; if the second pass read nothing without an error, the chunk
  where it stopped is removed too and, unless that removal panics or fails, the result is
  0 bytes and no error: there is no third pass.
\<close>

theorem readFromChunks_retry:
  assumes "attemptReadFromChunks P s w sr dest = Some ((i1, n1, e1), d1, s1, w1)"
  shows
   "(e1 \<noteq> None \<longrightarrow> readFromChunks P s w sr dest = Some ((n1, e1), d1, s1, w1))
  \<and> (e1 = None \<and> 0 < n1 \<longrightarrow>
       (\<exists>n. readFromChunks P s w sr dest = Some ((n, None), d1, s1, w1)))
  \<and> (e1 = None \<and> n1 \<le> 0 \<longrightarrow>
       (case RemoveChunk P s1 w1 i1 of
          None \<Rightarrow> readFromChunks P s w sr dest = None
        | Some (Some err, w2) \<Rightarrow> readFromChunks P s w sr dest = Some ((n1, Some err), d1, s1, w2)
        | Some (None, w2) \<Rightarrow>
            (case attemptReadFromChunks P s1 w2 sr d1 of
               None \<Rightarrow> readFromChunks P s w sr dest = None
             | Some ((i2, n2, Some err), d2, s2, w3) \<Rightarrow>
                 readFromChunks P s w sr dest = Some ((n2, Some err), d2, s2, w3)
             | Some ((i2, n2, None), d2, s2, w3) \<Rightarrow>
                 (0 < n2 \<longrightarrow>
                    (\<exists>n. readFromChunks P s w sr dest = Some ((n, None), d2, s2, w3))) \<and>
                 (n2 \<le> 0 \<longrightarrow>
                   (case RemoveChunk P s2 w3 i2 of
                      None \<Rightarrow> readFromChunks P s w sr dest = None
                    | Some (Some err, w4) \<Rightarrow>
                        readFromChunks P s w sr dest = Some ((n2, Some err), d2, s2, w4)
                    | Some (None, w4) \<Rightarrow>
                        readFromChunks P s w sr dest = Some ((0, None), d2, s2, w4))))))
  \<and> (\<forall>sd. sdBlob s1 = Some sd \<and> 0 \<le> i1 \<and> i1 < int (length (BlobInfos sd)) \<longrightarrow>
        RemoveChunk P s1 w1 i1 =
          (case clearChuckFromCache P (cache w1)
                  (hex_EncodeToString (BlobHash (BlobInfos sd ! nat i1))) of
             (err, c') \<Rightarrow> Some (err, w1\<lparr>cache := c'\<rparr>)))"
  using assms
  by (auto simp add: readFromChunks_def readLoop.simps [of _ _ 0] readLoop.simps [of _ _ 1]
      readLoop.simps [of _ _ 2] RemoveChunk_def go_index_def
      split: option.splits prod.splits)

theorem readFromChunks_retry_witness:
  "readFromChunks examplePlayer (exampleStream twoChunks)
     (exampleRuntime [(''61'', ''hello''), (''62'', ''wor'')] []) (getRange examplePlayer 0 0) []
   = Some ((0, None), [], exampleStream twoChunks, exampleRuntime [(''62'', ''wor'')] [])
   \<and> readFromChunks examplePlayer (exampleStream oneChunk) (exampleRuntime [] [])
       (getRange examplePlayer 0 4) ''....''
     = Some ((0, Some (errors_New ''blob not found'')), ''....'',
          exampleStream oneChunk, exampleRuntime [] [])
   \<and> (\<exists>n. readFromChunks examplePlayer ((exampleStream oneChunk)\<lparr>Size := 5\<rparr>)
       (exampleRuntime [] [(''61'', ''hello'')]) (getRange examplePlayer 0 4) ''....''
     = Some ((n, None), ''hell'',
        (exampleStream oneChunk)\<lparr>Size := 5, prefetchedChunks := (\<lambda>i. False)(1 := True)\<rparr>,
        \<lparr>cache = (exampleStore [(''61'', ''hello'')] [(''61'', ''hello'')] [])
                   \<lparr>disk := [(''61'', ''hello'')]\<rparr>,
         spawned = [1]\<rparr>))"
proof -
  have p1: "attemptReadFromChunks examplePlayer (exampleStream twoChunks)
     (exampleRuntime [(''61'', ''hello''), (''62'', ''wor'')] []) (getRange examplePlayer 0 0) []
     = Some ((0, 0, None), [], exampleStream twoChunks,
             exampleRuntime [(''61'', ''hello''), (''62'', ''wor'')] [])"
    by (simp add: attemptReadFromChunks_def attemptLoop.simps [of _ _ 0] example_defs)
  have p2: "attemptReadFromChunks examplePlayer (exampleStream twoChunks)
     (exampleRuntime [(''62'', ''wor'')] []) (getRange examplePlayer 0 0) []
     = Some ((0, 0, None), [], exampleStream twoChunks, exampleRuntime [(''62'', ''wor'')] [])"
    by (simp add: attemptReadFromChunks_def attemptLoop.simps [of _ _ 0] example_defs)
  have r: "RemoveChunk examplePlayer (exampleStream twoChunks)
             (exampleRuntime [(''61'', ''hello''), (''62'', ''wor'')] []) 0
           = Some (None, exampleRuntime [(''62'', ''wor'')] [])"
    "RemoveChunk examplePlayer (exampleStream twoChunks) (exampleRuntime [(''62'', ''wor'')] []) 0
           = Some (None, exampleRuntime [(''62'', ''wor'')] [])"
    by (simp_all add: RemoveChunk_def hex_EncodeToString_a example_defs)
  have a: "readFromChunks examplePlayer (exampleStream twoChunks)
     (exampleRuntime [(''61'', ''hello''), (''62'', ''wor'')] []) (getRange examplePlayer 0 0) []
   = Some ((0, None), [], exampleStream twoChunks, exampleRuntime [(''62'', ''wor'')] [])"
    using readFromChunks_retry [OF p1] by (simp add: r p2)
  have b: "readFromChunks examplePlayer (exampleStream oneChunk) (exampleRuntime [] [])
       (getRange examplePlayer 0 4) ''....''
     = Some ((0, Some (errors_New ''blob not found'')), ''....'',
          exampleStream oneChunk, exampleRuntime [] [])"
    using readFromChunks_retry [OF example_attempt_not_found] by simp
  have c: "\<exists>n. readFromChunks examplePlayer ((exampleStream oneChunk)\<lparr>Size := 5\<rparr>)
       (exampleRuntime [] [(''61'', ''hello'')]) (getRange examplePlayer 0 4) ''....''
     = Some ((n, None), ''hell'',
        (exampleStream oneChunk)\<lparr>Size := 5, prefetchedChunks := (\<lambda>i. False)(1 := True)\<rparr>,
        \<lparr>cache = (exampleStore [(''61'', ''hello'')] [(''61'', ''hello'')] [])
                   \<lparr>disk := [(''61'', ''hello'')]\<rparr>,
         spawned = [1]\<rparr>)"
    using readFromChunks_retry [OF example_attempt_first_chunk] by simp
  from a b c show ?thesis by blast
qed

text \<open>
  A stream of three blob infos stands at offset \<open>5 * 2097136\<close>, inside the size it was
  given, and is read into an empty buffer. The pass over the range reads nothing and
  returns no error, stopped at index 5; the removal fails on the index guard, nothing is
  cleared from the cache, no second pass is made and \<open>readFromChunks\<close>, and with it \<open>Read\<close>,
  returns the error.
\<close>

theorem readFromChunks_purge_fails:
  "attemptReadFromChunks examplePlayer
      ((exampleStream twoChunks)\<lparr>Size := 20971360, seekOffset := 10485680\<rparr>)
      (exampleRuntime [(''62'', ''wor'')] [(''61'', ''hello'')]) (getRange examplePlayer 10485680 0) []
   = Some ((5, 0, None), [],
           (exampleStream twoChunks)\<lparr>Size := 20971360, seekOffset := 10485680\<rparr>,
           exampleRuntime [(''62'', ''wor'')] [(''61'', ''hello'')])
   \<and> readFromChunks examplePlayer
      ((exampleStream twoChunks)\<lparr>Size := 20971360, seekOffset := 10485680\<rparr>)
      (exampleRuntime [(''62'', ''wor'')] [(''61'', ''hello'')]) (getRange examplePlayer 10485680 0) []
   = Some ((0, Some (errors_New ''blob index out of bounds'')), [],
           (exampleStream twoChunks)\<lparr>Size := 20971360, seekOffset := 10485680\<rparr>,
           exampleRuntime [(''62'', ''wor'')] [(''61'', ''hello'')])
   \<and> Read examplePlayer
      ((exampleStream twoChunks)\<lparr>Size := 20971360, seekOffset := 10485680\<rparr>)
      (exampleRuntime [(''62'', ''wor'')] [(''61'', ''hello'')]) []
   = Some ((0, Some (errors_New ''blob index out of bounds'')), [],
           (exampleStream twoChunks)\<lparr>Size := 20971360, seekOffset := 10485680\<rparr>,
           exampleRuntime [(''62'', ''wor'')] [(''61'', ''hello'')])"
  by (simp add: Read_def readFromChunks_def readLoop.simps [of _ _ 0] attemptReadFromChunks_def
      attemptLoop.simps [of _ _ 5] RemoveChunk_def example_defs)

lemma chunkLayerError_GetChunk:
  "bs_GetChunk P c h k iv = ((b, Some err), c') \<Longrightarrow> chunkLayerError P err"
proof -
  assume a: "bs_GetChunk P c h k iv = ((b, Some err), c')"
  then have "snd (fst (bs_GetChunk P c h k iv)) = Some err" by simp
  then show ?thesis unfolding chunkLayerError_def by blast
qed

lemma chunkLayerError_Read:
  "chunk_Read P b off len d = Some (n, Some err, d') \<Longrightarrow> chunkLayerError P err"
proof -
  assume a: "chunk_Read P b off len d = Some (n, Some err, d')"
  then have "chunk_Read P b off len d = Some (n, Some err, d') \<and> fst (snd (n, Some err, d')) = Some err"
    by simp
  then show ?thesis unfolding chunkLayerError_def by blast
qed

lemma chunkLayerError_clear:
  "clearChuckFromCache P c h = (Some err, c') \<Longrightarrow> chunkLayerError P err"
proof -
  assume a: "clearChuckFromCache P c h = (Some err, c')"
  then have "fst (clearChuckFromCache P c h) = Some err" by simp
  then show ?thesis unfolding chunkLayerError_def by blast
qed

lemma chunkLayerError_bounds: "chunkLayerError P (errors_New ''blob index out of bounds'')"
  by (simp add: chunkLayerError_def)

lemma GetChunk_error:
  assumes "GetChunk P s w i = Some ((b, Some err), s', w')"
  shows "chunkLayerError P err"
  using assms
  by (auto simp add: GetChunk_def Let_def chunkLayerError_bounds
      split: option.splits if_splits prod.splits dest: chunkLayerError_GetChunk)

lemma RemoveChunk_error:
  assumes "RemoveChunk P s w i = Some (Some err, w')"
  shows "chunkLayerError P err"
  using assms
  by (auto simp add: RemoveChunk_def Let_def chunkLayerError_bounds
      split: option.splits if_splits prod.splits dest: chunkLayerError_clear)

lemma attemptLoop_error:
  assumes "attemptLoop P sr i read dest s w = Some ((j, n, Some err), d', s', w')"
  shows "chunkLayerError P err"
  using assms
proof (induction P sr i read dest s w arbitrary: j n err d' s' w' rule: attemptLoop.induct)
  case (1 P sr i read dest s w)
  from "1.prems" show ?case
    apply (subst (asm) attemptLoop.simps)
    apply (auto split: if_splits prod.splits option.splits
        dest: GetChunk_error chunkLayerError_Read)
    apply (drule "1.IH"[rotated -1]; (simp (no_asm_simp))?)
    done
qed

lemma readLoop_error:
  assumes "readLoop P sr i read dest s w = Some ((n, Some err), d', s', w')"
  shows "chunkLayerError P err"
  using assms
proof (induction P sr i read dest s w arbitrary: n err d' s' w' rule: readLoop.induct)
  case (1 P sr i read dest s w)
  from "1.prems" show ?case
    apply (subst (asm) readLoop.simps)
    apply (auto simp add: attemptReadFromChunks_def split: if_splits prod.splits option.splits
        dest: attemptLoop_error RemoveChunk_error)
    apply (drule "1.IH"[rotated -1]; (simp (no_asm_simp) add: attemptReadFromChunks_def)?)
    done
qed

lemma Read_error:
  assumes "Read P s w dest = Some ((n, Some err), d', s', w')"
  shows "chunkLayerError P err"
  using assms
  by (auto simp add: Read_def readFromChunks_def split: option.splits prod.splits
      dest: readLoop_error)


lemma Read_past_chunk_end:
  assumes gr: "getRange P = spec_getRange (MaxChunkSize P)"
    and br: "ByteRangeForChunk P = spec_ByteRangeForChunk (MaxChunkSize P)"
    and cr: "chunk_Read P = spec_chunk_Read"
    and m: "0 < MaxChunkSize P"
    and d: "dest \<noteq> []"
    and g: "GetChunk P s w (sint (seekOffset s) div MaxChunkSize P) = Some ((b, None), s1, w1)"
    and l: "chunk_len b \<le> sint (seekOffset s) mod MaxChunkSize P"
  shows "Read P s w dest = Some ((0, Some (Sentinel errOutOfBounds)), dest, s1, w1)"
proof -
  let ?O = "sint (seekOffset s)"
  let ?M = "MaxChunkSize P"
  let ?sr = "spec_getRange ?M ?O (int (length dest))"
  from d have "0 < int (length dest)" by simp
  then have "?O \<le> ?O + int (length dest) - 1" by simp
  then have le: "?O div ?M \<le> (?O + int (length dest) - 1) div ?M"
    using m by (rule zdiv_mono1)
  have f: "FirstChunkIdx ?sr = ?O div ?M" by (simp add: spec_getRange_def)
  have la: "LastChunkIdx ?sr = (?O + int (length dest) - 1) div ?M" by (simp add: spec_getRange_def)
  have fo: "FirstChunkOffset ?sr = ?O mod ?M" by (simp add: spec_getRange_def)
  have lt: "?O div ?M < LastChunkIdx ?sr + 1" using le la by simp
  have bl: "int (length (case b of None \<Rightarrow> [] | Some bs \<Rightarrow> bs)) = chunk_len b"
    by (simp add: chunk_len_def split: option.splits)
  have rd: "\<And>n. spec_chunk_Read b (?O mod ?M) n dest = Some (0, Some (Sentinel errOutOfBounds), dest)"
    using l by (simp add: spec_chunk_Read_def bl Let_def)
  have a: "attemptReadFromChunks P s w ?sr dest
             = Some ((?O div ?M, 0, Some (Sentinel errOutOfBounds)), dest, s1, w1)"
    unfolding attemptReadFromChunks_def f
    apply (subst attemptLoop.simps)
    apply (simp only: lt if_True)
    apply (simp add: br spec_ByteRangeForChunk_def f fo g go_slice_from_def go_slice_def cr rd Let_def)
    done
  have s1: "s1\<lparr>seekOffset := seekOffset s1 + 0\<rparr> = s1" by simp
  show ?thesis
    unfolding Read_def gr readFromChunks_def
    apply (subst readLoop.simps)
    apply (simp add: a)
    done
qed

text \<open>
  C6, as amended. For a stream of positive size whose offset equals the size, \<open>Read\<close>
  makes no error of its own: an error it returns is an error of the chunk layer, so it
  is \<open>io.EOF\<close> only if the chunk layer returns \<open>io.EOF\<close>. With the range and the chunk reader
  of the specification, a buffer that is not empty, and the chunk that holds the offset
  fetched and ending at or before it, \<open>Read\<close> returns 0 bytes and the error OutOfBounds.
\<close>

theorem Read_at_Size:
  assumes "0 < Size s" and "seekOffset s = Size s"
  shows "(Read P s w dest = Some ((n, Some err), d', s', w') \<longrightarrow> chunkLayerError P err)
       \<and> (\<not> chunkLayerError P (Sentinel io_EOF) \<and> Read P s w dest = Some ((n, e), d', s', w')
            \<longrightarrow> e \<noteq> Some (Sentinel io_EOF))
       \<and> (getRange P = spec_getRange (MaxChunkSize P)
            \<and> ByteRangeForChunk P = spec_ByteRangeForChunk (MaxChunkSize P)
            \<and> chunk_Read P = spec_chunk_Read \<and> 0 < MaxChunkSize P \<and> dest \<noteq> []
            \<and> GetChunk P s w (sint (Size s) div MaxChunkSize P) = Some ((b, None), s1, w1)
            \<and> chunk_len b \<le> sint (Size s) mod MaxChunkSize P
            \<longrightarrow> Read P s w dest = Some ((0, Some (Sentinel errOutOfBounds)), dest, s1, w1))"
proof (intro conjI impI)
  assume "Read P s w dest = Some ((n, Some err), d', s', w')"
  then show "chunkLayerError P err" by (rule Read_error)
next
  assume a: "\<not> chunkLayerError P (Sentinel io_EOF) \<and> Read P s w dest = Some ((n, e), d', s', w')"
  show "e \<noteq> Some (Sentinel io_EOF)"
  proof
    assume "e = Some (Sentinel io_EOF)"
    with a have "chunkLayerError P (Sentinel io_EOF)" by (auto dest: Read_error)
    with a show False by simp
  qed
next
  assume a: "getRange P = spec_getRange (MaxChunkSize P)
            \<and> ByteRangeForChunk P = spec_ByteRangeForChunk (MaxChunkSize P)
            \<and> chunk_Read P = spec_chunk_Read \<and> 0 < MaxChunkSize P \<and> dest \<noteq> []
            \<and> GetChunk P s w (sint (Size s) div MaxChunkSize P) = Some ((b, None), s1, w1)
            \<and> chunk_len b \<le> sint (Size s) mod MaxChunkSize P"
  then have 1: "getRange P = spec_getRange (MaxChunkSize P)"
    and 2: "ByteRangeForChunk P = spec_ByteRangeForChunk (MaxChunkSize P)"
    and 3: "chunk_Read P = spec_chunk_Read" and 4: "0 < MaxChunkSize P" and 5: "dest \<noteq> []"
    and 6: "GetChunk P s w (sint (Size s) div MaxChunkSize P) = Some ((b, None), s1, w1)"
    and 7: "chunk_len b \<le> sint (Size s) mod MaxChunkSize P"
    by blast+
  from 6 7 show "Read P s w dest = Some ((0, Some (Sentinel errOutOfBounds)), dest, s1, w1)"
    unfolding assms(2) [symmetric] by (rule Read_past_chunk_end [OF 1 2 3 4 5])
qed

theorem Read_at_Size_witness:
  "Read examplePlayer ((exampleStream twoChunks)\<lparr>Size := 2097139, seekOffset := 2097139\<rparr>)
     (exampleRuntime [] [(''61'', ''hello''), (''62'', ''wor'')]) ''....''
   = Some ((0, Some (Sentinel errOutOfBounds)), ''....'',
        (exampleStream twoChunks)\<lparr>Size := 2097139, seekOffset := 2097139,
           prefetchedChunks := (\<lambda>i. False)(2 := True)\<rparr>,
        \<lparr>cache = (exampleStore [(''62'', ''wor'')] [(''61'', ''hello''), (''62'', ''wor'')] [])
                   \<lparr>disk := [(''62'', ''wor'')]\<rparr>,
         spawned = [2]\<rparr>)
   \<and> chunkLayerError examplePlayer (Sentinel errOutOfBounds)
   \<and> Some (Sentinel errOutOfBounds) \<noteq> Some (Sentinel io_EOF)"
proof -
  let ?s = "(exampleStream twoChunks)\<lparr>Size := 2097139, seekOffset := 2097139\<rparr>"
  let ?w = "exampleRuntime [] [(''61'', ''hello''), (''62'', ''wor'')]"
  have sz: "0 < Size ?s" "seekOffset ?s = Size ?s" by (simp_all add: exampleStream_def)
  have g: "GetChunk examplePlayer ?s ?w (sint (Size ?s) div MaxChunkSize examplePlayer)
     = Some ((Some ''wor'', None),
          (exampleStream twoChunks)\<lparr>Size := 2097139, seekOffset := 2097139,
             prefetchedChunks := (\<lambda>i. False)(2 := True)\<rparr>,
          \<lparr>cache = (exampleStore [(''62'', ''wor'')] [(''61'', ''hello''), (''62'', ''wor'')] [])
                   \<lparr>disk := [(''62'', ''wor'')]\<rparr>,
           spawned = [2]\<rparr>)"
    by (simp add: GetChunk_def hex_EncodeToString_b example_defs Let_def)
  have l: "chunk_len (Some ''wor'') \<le> sint (Size ?s) mod MaxChunkSize examplePlayer"
    by (simp add: chunk_len_def example_defs)
  let ?s1 = "(exampleStream twoChunks)\<lparr>Size := 2097139, seekOffset := 2097139,
             prefetchedChunks := (\<lambda>i. False)(2 := True)\<rparr>"
  let ?w1 = "\<lparr>cache = (exampleStore [(''62'', ''wor'')] [(''61'', ''hello''), (''62'', ''wor'')] [])
                   \<lparr>disk := [(''62'', ''wor'')]\<rparr>,
           spawned = [2 :: int]\<rparr>"
  note th = Read_at_Size [OF sz, where P = examplePlayer and w = ?w and dest = "''....''"
      and n = 0 and err = "Sentinel errOutOfBounds" and d' = "''....''" and s' = ?s1 and w' = ?w1
      and e = "Some (Sentinel errOutOfBounds)" and b = "Some ''wor''" and ?s1.0 = ?s1
      and ?w1.0 = ?w1]
  from th g l have r: "Read examplePlayer ?s ?w ''....''
      = Some ((0, Some (Sentinel errOutOfBounds)), ''....'', ?s1, ?w1)"
    by (simp add: examplePlayer_def specPlayer_def)
  from th r have c: "chunkLayerError examplePlayer (Sentinel errOutOfBounds)"
    by blast
  from th r examplePlayer_no_EOF
  have d: "Some (Sentinel errOutOfBounds) \<noteq> Some (Sentinel io_EOF)"
    by blast
  from r c d show ?thesis by blast
qed

text \<open>
  On a stream of one chunk of five bytes and size 5, a read at offset 5 returns 0 bytes
  and the error OutOfBounds.
\<close>

theorem Read_at_Size_counterexample:
  "Read examplePlayer ((exampleStream oneChunk)\<lparr>Size := 5, seekOffset := 5\<rparr>)
     (exampleRuntime [] [(''61'', ''hello'')]) ''....''
   = Some ((0, Some (Sentinel errOutOfBounds)), ''....'',
        (exampleStream oneChunk)\<lparr>Size := 5, seekOffset := 5,
           prefetchedChunks := (\<lambda>i. False)(1 := True)\<rparr>,
        \<lparr>cache = (exampleStore [(''61'', ''hello'')] [(''61'', ''hello'')] [])
                   \<lparr>disk := [(''61'', ''hello'')]\<rparr>,
         spawned = [1]\<rparr>)"
  by (simp add: Read_def readFromChunks_def readLoop.simps [of _ _ 0] attemptReadFromChunks_def
      attemptLoop.simps [of _ _ 0] GetChunk_def hex_EncodeToString_a oneChunk_def
      example_defs Let_def)

section \<open>Prefetching\<close>

lemma prefetchLoop_calls:
  assumes "prefetchLoop P sd bis c = (fetched, c')"
  shows "length fetched \<le> length bis
       \<and> (\<forall>(bi, st) \<in> set fetched. bi \<in> set bis \<and> \<not> IsCached P st (hex_EncodeToString (BlobHash bi)))
       \<and> (\<forall>j. Suc j < length fetched \<longrightarrow>
             snd (fst (bs_GetChunk P (snd (fetched ! j))
                        (hex_EncodeToString (BlobHash (fst (fetched ! j)))) (Key sd)
                        (IV (fst (fetched ! j))))) = None)"
  using assms
proof (induction bis arbitrary: c fetched c')
  case Nil
  then show ?case by simp
next
  case (Cons bi bis)
  show ?case
  proof (cases "IsCached P c (hex_EncodeToString (BlobHash bi))")
    case True
    with Cons.prems have "prefetchLoop P sd bis c = (fetched, c')" by simp
    from Cons.IH [OF this] show ?thesis by auto
  next
    case nc: False
    obtain chunk e c1 where g: "bs_GetChunk P c (hex_EncodeToString (BlobHash bi)) (Key sd) (IV bi) = ((chunk, e), c1)"
      by (metis prod.exhaust)
    show ?thesis
    proof (cases e)
      case (Some err)
      with nc g Cons.prems have "fetched = [(bi, c)]" by simp
      with nc show ?thesis by simp
    next
      case None
      obtain f2 c2 where r: "prefetchLoop P sd bis c1 = (f2, c2)" by (metis prod.exhaust)
      with nc g None Cons.prems have f: "fetched = (bi, c) # f2" by simp
      from Cons.IH [OF r] have ih: "length f2 \<le> length bis"
        "\<forall>(bi, st) \<in> set f2. bi \<in> set bis \<and> \<not> IsCached P st (hex_EncodeToString (BlobHash bi))"
        "\<forall>j. Suc j < length f2 \<longrightarrow>
             snd (fst (bs_GetChunk P (snd (f2 ! j))
                        (hex_EncodeToString (BlobHash (fst (f2 ! j)))) (Key sd)
                        (IV (fst (f2 ! j))))) = None"
        by auto
      have "\<forall>j. Suc j < length fetched \<longrightarrow>
             snd (fst (bs_GetChunk P (snd (fetched ! j))
                        (hex_EncodeToString (BlobHash (fst (fetched ! j)))) (Key sd)
                        (IV (fst (fetched ! j))))) = None"
      proof (intro allI impI)
        fix j assume "Suc j < length fetched"
        then show "snd (fst (bs_GetChunk P (snd (fetched ! j))
                        (hex_EncodeToString (BlobHash (fst (fetched ! j)))) (Key sd)
                        (IV (fst (fetched ! j))))) = None"
          using ih(3) g None f by (cases j) auto
      qed
      with ih(1,2) nc f show ?thesis by auto
    qed
  qed
qed


lemma GetChunk_success:
  assumes "GetChunk P s w i = Some ((Some b, None), s', w')"
  shows "\<exists>sd. sdBlob s = Some sd \<and> sdBlob s' = Some sd \<and> 0 \<le> i \<and> i < int (length (BlobInfos sd))
     \<and> (if prefetch P \<and> \<not> prefetchedChunks s (i + 1)
          then spawned w' = spawned w @ [i + 1]
               \<and> prefetchedChunks s' = (prefetchedChunks s)(i + 1 := True)
          else spawned w' = spawned w \<and> prefetchedChunks s' = prefetchedChunks s)"
  using assms
  by (auto simp add: GetChunk_def go_index_def Let_def split: option.splits if_splits prod.splits)

lemma prefetchChunk_window:
  assumes "sdBlob s = Some sd" and "0 \<le> i" and "i < int (length (BlobInfos sd))"
  shows "prefetchChunk P s c (i + 1) = Some (prefetchLoop P sd (prefetchWindow P sd i) c)"
proof -
  have t1: "nat (int (length (BlobInfos sd)) - 1) - nat (i + 1)
              = nat (int (length (BlobInfos sd)) - i - 2)"
    using assms(2) by linarith
  have t2: "nat (i + 1 + DefaultPrefetchLen P) - nat (i + 1) = nat (DefaultPrefetchLen P)"
    using assms(2) by linarith
  show ?thesis
    using assms
    by (auto simp add: prefetchChunk_def Let_def go_slice_def prefetchWindow_def min_def t1 t2)
qed

lemma prefetchWindow_index:
  assumes "0 \<le> i" and "bi \<in> set (prefetchWindow P sd i)"
  shows "\<exists>k. i + 1 \<le> k \<and> k < i + 1 + DefaultPrefetchLen P \<and> k < int (length (BlobInfos sd)) - 1
            \<and> bi = BlobInfos sd ! nat k"
proof -
  let ?n = "nat (min (DefaultPrefetchLen P) (int (length (BlobInfos sd)) - i - 2))"
  let ?d = "drop (nat (i + 1)) (BlobInfos sd)"
  from assms(2) obtain j where j: "j < length (take ?n ?d)" "bi = take ?n ?d ! j"
    unfolding prefetchWindow_def by (metis in_set_conv_nth)
  then have jn: "j < ?n" and jd: "j < length ?d" by simp_all
  from j jn have b: "bi = ?d ! j" by simp
  from jd have "nat (i + 1) + j < length (BlobInfos sd)" by simp
  then have b2: "bi = BlobInfos sd ! (nat (i + 1) + j)" using b by (simp add: add.commute)
  have k: "nat (i + 1 + int j) = nat (i + 1) + j" using assms(1) by simp
  from jn have "int j < DefaultPrefetchLen P" "int j < int (length (BlobInfos sd)) - i - 2"
    by linarith+
  then show ?thesis using b2 k assms(1)
    by (intro exI [of _ "i + 1 + int j"]) simp
qed

lemma upt_Suc_shift: "[0..<Suc m] = 0 # map Suc [0..<m]"
  by (simp add: upt_conv_Cons map_Suc_upt del: upt_Suc)

lemma visitsOf_Cons:
  assumes v: "visitsOf P sd bis cs m fetched"
    and c0: "cs ! 0 = visitStep P sd c bi"
    and nf: "\<not> visitFails P sd c bi"
  shows "visitsOf P sd (bi # bis) (c # cs) (Suc m)
           ((if IsCached P c (hex_EncodeToString (BlobHash bi)) then [] else [(bi, c)]) @ fetched)"
proof -
  from v have
    m: "m \<le> length bis" and l: "length cs = Suc m"
    and st: "\<forall>k<m. cs ! Suc k = visitStep P sd (cs ! k) (bis ! k)"
    and fl: "\<forall>k<m. visitFails P sd (cs ! k) (bis ! k) \<longrightarrow> Suc k = m"
    and en: "m < length bis \<longrightarrow> (\<exists>j. m = Suc j \<and> visitFails P sd (cs ! j) (bis ! j))"
    and fe: "fetched = map (\<lambda>k. (bis ! k, cs ! k))
                      (filter (\<lambda>k. \<not> IsCached P (cs ! k) (hex_EncodeToString (BlobHash (bis ! k))))
                         [0..<m])"
    unfolding visitsOf_def by simp_all
  let ?cs = "c # cs" and ?m = "Suc m"
  have 1: "?m \<le> length (bi # bis)" using m by simp
  have 2: "length ?cs = Suc ?m" using l by simp
  have 5: "\<forall>k<?m. ?cs ! Suc k = visitStep P sd (?cs ! k) ((bi # bis) ! k)"
    using st c0 by (simp add: All_less_Suc2)
  have 6: "\<forall>k<?m. visitFails P sd (?cs ! k) ((bi # bis) ! k) \<longrightarrow> Suc k = ?m"
    using fl nf by (simp add: All_less_Suc2)
  have 7: "?m < length (bi # bis) \<longrightarrow>
             (\<exists>j. ?m = Suc j \<and> visitFails P sd (?cs ! j) ((bi # bis) ! j))"
  proof
    assume "?m < length (bi # bis)"
    then have "m < length bis" by simp
    with en obtain j where j: "m = Suc j" "visitFails P sd (cs ! j) (bis ! j)" by blast
    show "\<exists>j. ?m = Suc j \<and> visitFails P sd (?cs ! j) ((bi # bis) ! j)"
      by (rule exI [of _ "Suc j"]) (simp add: j)
  qed
  have 8: "(if IsCached P c (hex_EncodeToString (BlobHash bi)) then [] else [(bi, c)]) @ fetched
         = map (\<lambda>k. ((bi # bis) ! k, ?cs ! k))
             (filter (\<lambda>k. \<not> IsCached P (?cs ! k) (hex_EncodeToString (BlobHash ((bi # bis) ! k))))
                [0..<?m])"
    unfolding upt_Suc_shift fe by (simp add: filter_map comp_def)
  show ?thesis
    unfolding visitsOf_def by (intro conjI 1 2 5 6 7 8)
qed

lemma windowRun_Cons:
  assumes r: "windowRun P sd bis (visitStep P sd c bi) fetched c'"
    and nf: "\<not> visitFails P sd c bi"
  shows "windowRun P sd (bi # bis) c
           ((if IsCached P c (hex_EncodeToString (BlobHash bi)) then [] else [(bi, c)]) @ fetched) c'"
proof -
  from r obtain cs m where v: "visitsOf P sd bis cs m fetched"
    and c0: "cs ! 0 = visitStep P sd c bi" and cm: "cs ! m = c'"
    unfolding windowRun_def by blast
  have "visitsOf P sd (bi # bis) (c # cs) (Suc m)
           ((if IsCached P c (hex_EncodeToString (BlobHash bi)) then [] else [(bi, c)]) @ fetched)
        \<and> (c # cs) ! 0 = c \<and> (c # cs) ! Suc m = c'"
    using visitsOf_Cons [OF v c0 nf] cm by simp
  then show ?thesis unfolding windowRun_def by blast
qed

lemma windowRun_fail:
  assumes "visitFails P sd c bi"
  shows "windowRun P sd (bi # bis) c [(bi, c)] (visitStep P sd c bi)"
proof -
  have nc: "\<not> IsCached P c (hex_EncodeToString (BlobHash bi))"
    using assms by (simp add: visitFails_def)
  have "visitsOf P sd (bi # bis) [c, visitStep P sd c bi] (Suc 0) [(bi, c)]"
    unfolding visitsOf_def using assms nc by simp
  then have "visitsOf P sd (bi # bis) [c, visitStep P sd c bi] (Suc 0) [(bi, c)]
      \<and> [c, visitStep P sd c bi] ! 0 = c
      \<and> [c, visitStep P sd c bi] ! Suc 0 = visitStep P sd c bi"
    by simp
  then show ?thesis unfolding windowRun_def by blast
qed

lemma windowRun_Nil: "windowRun P sd [] c [] c"
proof -
  have "visitsOf P sd [] [c] 0 [] \<and> [c] ! 0 = c \<and> [c] ! 0 = c"
    by (simp add: visitsOf_def)
  then show ?thesis unfolding windowRun_def by blast
qed

lemma prefetchLoop_windowRun:
  "prefetchLoop P sd bis c = (fetched, c') \<Longrightarrow> windowRun P sd bis c fetched c'"
proof (induction bis arbitrary: c fetched c')
  case Nil
  then show ?case by (simp add: windowRun_Nil)
next
  case (Cons bi bis)
  show ?case
  proof (cases "IsCached P c (hex_EncodeToString (BlobHash bi))")
    case True
    with Cons.prems have "prefetchLoop P sd bis c = (fetched, c')" by simp
    then have "windowRun P sd bis (visitStep P sd c bi) fetched c'"
      using Cons.IH True by (simp add: visitStep_def)
    from windowRun_Cons [OF this] True show ?thesis by (simp add: visitFails_def)
  next
    case nc: False
    obtain chunk e c1 where
      g: "bs_GetChunk P c (hex_EncodeToString (BlobHash bi)) (Key sd) (IV bi) = ((chunk, e), c1)"
      by (metis prod.exhaust)
    then have vs: "visitStep P sd c bi = c1" using nc by (simp add: visitStep_def)
    show ?thesis
    proof (cases e)
      case (Some err)
      with nc g Cons.prems have f: "fetched = [(bi, c)]" "c' = c1" by simp_all
      have "visitFails P sd c bi" using nc g Some by (simp add: visitFails_def)
      from windowRun_fail [OF this] f vs show ?thesis by simp
    next
      case None
      obtain f2 c2 where r: "prefetchLoop P sd bis c1 = (f2, c2)" by (metis prod.exhaust)
      with nc g None Cons.prems have f: "fetched = (bi, c) # f2" "c' = c2" by simp_all
      from Cons.IH [OF r] have "windowRun P sd bis (visitStep P sd c bi) f2 c2" by (simp add: vs)
      moreover have "\<not> visitFails P sd c bi" using g None by (simp add: visitFails_def)
      ultimately show ?thesis using windowRun_Cons [of P sd bis c bi f2 c2] nc f by simp
    qed
  qed
qed


lemma visitsOf_tail:
  assumes v: "visitsOf P sd (bi # bis) (c # cs) (Suc m) fetched"
    and nf: "\<not> visitFails P sd c bi"
  shows "\<exists>f2. visitsOf P sd bis cs m f2 \<and> cs ! 0 = visitStep P sd c bi
          \<and> fetched = (if IsCached P c (hex_EncodeToString (BlobHash bi)) then [] else [(bi, c)]) @ f2"
proof -
  let ?f2 = "map (\<lambda>k. (bis ! k, cs ! k))
               (filter (\<lambda>k. \<not> IsCached P (cs ! k) (hex_EncodeToString (BlobHash (bis ! k))))
                  [0..<m])"
  from v have
    m: "Suc m \<le> length (bi # bis)" and l: "length (c # cs) = Suc (Suc m)"
    and st: "\<forall>k<Suc m. (c # cs) ! Suc k = visitStep P sd ((c # cs) ! k) ((bi # bis) ! k)"
    and fl: "\<forall>k<Suc m. visitFails P sd ((c # cs) ! k) ((bi # bis) ! k) \<longrightarrow> Suc k = Suc m"
    and en: "Suc m < length (bi # bis) \<longrightarrow>
               (\<exists>j. Suc m = Suc j \<and> visitFails P sd ((c # cs) ! j) ((bi # bis) ! j))"
    and fe: "fetched = map (\<lambda>k. ((bi # bis) ! k, (c # cs) ! k))
               (filter (\<lambda>k. \<not> IsCached P ((c # cs) ! k)
                                (hex_EncodeToString (BlobHash ((bi # bis) ! k))))
                  [0..<Suc m])"
    unfolding visitsOf_def by simp_all
  have 1: "m \<le> length bis" using m by simp
  have 2: "length cs = Suc m" using l by simp
  from st have c0: "cs ! 0 = visitStep P sd c bi"
    and 5: "\<forall>k<m. cs ! Suc k = visitStep P sd (cs ! k) (bis ! k)"
    by (simp_all add: All_less_Suc2)
  from fl have 6: "\<forall>k<m. visitFails P sd (cs ! k) (bis ! k) \<longrightarrow> Suc k = m"
    by (simp add: All_less_Suc2)
  have 7: "m < length bis \<longrightarrow> (\<exists>j. m = Suc j \<and> visitFails P sd (cs ! j) (bis ! j))"
  proof
    assume "m < length bis"
    with en have vf: "visitFails P sd ((c # cs) ! m) ((bi # bis) ! m)" by simp
    show "\<exists>j. m = Suc j \<and> visitFails P sd (cs ! j) (bis ! j)"
    proof (cases m)
      case 0
      with vf nf show ?thesis by simp
    next
      case (Suc j)
      with vf have "m = Suc j \<and> visitFails P sd (cs ! j) (bis ! j)" by simp
      then show ?thesis ..
    qed
  qed
  have v2: "visitsOf P sd bis cs m ?f2"
    unfolding visitsOf_def using 1 2 5 6 7 by simp
  have 8: "fetched = (if IsCached P c (hex_EncodeToString (BlobHash bi)) then [] else [(bi, c)]) @ ?f2"
    unfolding fe upt_Suc_shift by (simp add: filter_map comp_def)
  from v2 c0 8 show ?thesis by blast
qed

lemma windowRun_prefetchLoop:
  "windowRun P sd bis c fetched c' \<Longrightarrow> prefetchLoop P sd bis c = (fetched, c')"
proof (induction bis arbitrary: c fetched c')
  case Nil
  then show ?case by (auto simp add: windowRun_def visitsOf_def)
next
  case (Cons bi bis)
  from Cons.prems obtain cs0 m0 where v: "visitsOf P sd (bi # bis) cs0 m0 fetched"
    and c0: "cs0 ! 0 = c" and cm: "cs0 ! m0 = c'"
    unfolding windowRun_def by blast
  from v have "m0 < length (bi # bis) \<longrightarrow> (\<exists>j. m0 = Suc j)" and "m0 \<le> length (bi # bis)"
    and l0: "length cs0 = Suc m0"
    unfolding visitsOf_def by auto
  then obtain m where m0: "m0 = Suc m" by (cases m0) auto
  from l0 c0 obtain cs where cs0: "cs0 = c # cs" by (cases cs0) auto
  note v' = v [unfolded m0 cs0]
  obtain chunk e c1 where
    g: "bs_GetChunk P c (hex_EncodeToString (BlobHash bi)) (Key sd) (IV bi) = ((chunk, e), c1)"
    by (metis prod.exhaust)
  show ?case
  proof (cases "visitFails P sd c bi")
    case True
    from v' have "\<forall>k<Suc m. visitFails P sd ((c # cs) ! k) ((bi # bis) ! k) \<longrightarrow> Suc k = Suc m"
      and st: "\<forall>k<Suc m. (c # cs) ! Suc k = visitStep P sd ((c # cs) ! k) ((bi # bis) ! k)"
      and fe: "fetched = map (\<lambda>k. ((bi # bis) ! k, (c # cs) ! k))
               (filter (\<lambda>k. \<not> IsCached P ((c # cs) ! k)
                                (hex_EncodeToString (BlobHash ((bi # bis) ! k))))
                  [0..<Suc m])"
      unfolding visitsOf_def by simp_all
    with True have z: "m = 0" by (auto simp add: All_less_Suc2)
    from True have nc: "\<not> IsCached P c (hex_EncodeToString (BlobHash bi))"
      and er: "e \<noteq> None" using g by (simp_all add: visitFails_def)
    from fe z nc have f: "fetched = [(bi, c)]" by simp
    from st z have "cs ! 0 = visitStep P sd c bi" by simp
    with cm m0 cs0 z nc g have c': "c' = c1" by (simp add: visitStep_def)
    from nc g er f c' show ?thesis by auto
  next
    case False
    from visitsOf_tail [OF v' False] obtain f2 where
      v2: "visitsOf P sd bis cs m f2" and s0: "cs ! 0 = visitStep P sd c bi"
      and fe: "fetched = (if IsCached P c (hex_EncodeToString (BlobHash bi)) then []
                         else [(bi, c)]) @ f2"
      by blast
    from cm m0 cs0 have "cs ! m = c'" by simp
    with v2 s0 have "windowRun P sd bis (visitStep P sd c bi) f2 c'"
      unfolding windowRun_def by blast
    from Cons.IH [OF this] have ih: "prefetchLoop P sd bis (visitStep P sd c bi) = (f2, c')" .
    show ?thesis
    proof (cases "IsCached P c (hex_EncodeToString (BlobHash bi))")
      case True
      with ih fe show ?thesis by (simp add: visitStep_def)
    next
      case nc: False
      with False g have "e = None" by (simp add: visitFails_def)
      with nc g ih fe show ?thesis by (simp add: visitStep_def)
    qed
  qed
qed

text \<open>
  C5. Let the fetch of chunk \<open>i\<close> by \<open>GetChunk\<close> succeed. If prefetch is enabled and index
  \<open>i + 1\<close> is not marked as scheduled, it is marked and a \<open>prefetchChunk (i + 1)\<close> is launched;
  otherwise nothing is launched. Run on any state \<open>c\<close> of the blob source, that
  \<open>prefetchChunk\<close> does not panic, and what it does is exactly the run over the window
  (\<open>windowRun\<close>): the calls \<open>fetched\<close> it makes and the state \<open>c'\<close> it leaves are the only ones for
  which the blob infos of the window were visited in order from \<open>c\<close>, each cached hash passed
  over, each other hash asked for with \<open>GetChunk\<close>, the visit going on to the end of the window
  unless a call returned an error, and ending with the first call that did. So there are at
  most \<open>DefaultPrefetchLen\<close> calls, each for a blob info at an index from \<open>i + 1\<close>, below
  \<open>i + 1 + DefaultPrefetchLen\<close> and below the terminator's, whose hash was not cached in the
  state in which it was asked for; every call but the last returned no error, and the task
  returns nothing to the stream.
\<close>

theorem prefetch_after_fetch:
  assumes "GetChunk P s w i = Some ((Some b, None), s', w')"
  shows "(if prefetch P \<and> \<not> prefetchedChunks s (i + 1)
          then spawned w' = spawned w @ [i + 1]
               \<and> prefetchedChunks s' = (prefetchedChunks s)(i + 1 := True)
          else spawned w' = spawned w \<and> prefetchedChunks s' = prefetchedChunks s)
       \<and> (\<exists>sd fetched c'. sdBlob s' = Some sd
            \<and> prefetchLoop P sd (prefetchWindow P sd i) c = (fetched, c')
            \<and> prefetchChunk P s' c (i + 1) = Some (fetched, c')
            \<and> (\<forall>f2 c2. windowRun P sd (prefetchWindow P sd i) c f2 c2
                          \<longleftrightarrow> f2 = fetched \<and> c2 = c')
            \<and> length fetched \<le> nat (DefaultPrefetchLen P)
            \<and> (\<forall>(bi, st) \<in> set fetched.
                  \<not> IsCached P st (hex_EncodeToString (BlobHash bi))
                  \<and> (\<exists>k. i + 1 \<le> k \<and> k < i + 1 + DefaultPrefetchLen P
                          \<and> k < int (length (BlobInfos sd)) - 1 \<and> bi = BlobInfos sd ! nat k))
            \<and> (\<forall>j. Suc j < length fetched \<longrightarrow>
                  snd (fst (bs_GetChunk P (snd (fetched ! j))
                         (hex_EncodeToString (BlobHash (fst (fetched ! j)))) (Key sd)
                         (IV (fst (fetched ! j))))) = None))"
proof -
  from GetChunk_success [OF assms] obtain sd where
    sd: "sdBlob s' = Some sd" and i: "0 \<le> i" "i < int (length (BlobInfos sd))" and
    sp: "if prefetch P \<and> \<not> prefetchedChunks s (i + 1)
          then spawned w' = spawned w @ [i + 1]
               \<and> prefetchedChunks s' = (prefetchedChunks s)(i + 1 := True)
          else spawned w' = spawned w \<and> prefetchedChunks s' = prefetchedChunks s"
    by auto
  obtain fetched c' where l: "prefetchLoop P sd (prefetchWindow P sd i) c = (fetched, c')"
    by (metis prod.exhaust)
  have pc: "prefetchChunk P s' c (i + 1) = Some (fetched, c')"
    using prefetchChunk_window [OF sd i, where P = P and c = c] l by simp
  have run: "\<forall>f2 c2. windowRun P sd (prefetchWindow P sd i) c f2 c2 \<longleftrightarrow> f2 = fetched \<and> c2 = c'"
  proof (intro allI iffI)
    fix f2 c2
    assume "windowRun P sd (prefetchWindow P sd i) c f2 c2"
    then have "prefetchLoop P sd (prefetchWindow P sd i) c = (f2, c2)"
      by (rule windowRun_prefetchLoop)
    with l show "f2 = fetched \<and> c2 = c'" by simp
  next
    fix f2 c2
    assume "f2 = fetched \<and> c2 = c'"
    with l show "windowRun P sd (prefetchWindow P sd i) c f2 c2"
      by (simp add: prefetchLoop_windowRun)
  qed
  note calls = prefetchLoop_calls [OF l]
  have len: "length fetched \<le> nat (DefaultPrefetchLen P)"
  proof -
    have "length (prefetchWindow P sd i) \<le> nat (DefaultPrefetchLen P)"
      by (simp add: prefetchWindow_def)
    with calls show ?thesis by simp
  qed
  have idx: "\<forall>(bi, st) \<in> set fetched.
                  \<not> IsCached P st (hex_EncodeToString (BlobHash bi))
                  \<and> (\<exists>k. i + 1 \<le> k \<and> k < i + 1 + DefaultPrefetchLen P
                          \<and> k < int (length (BlobInfos sd)) - 1 \<and> bi = BlobInfos sd ! nat k)"
    using calls prefetchWindow_index [OF i(1)] by fast
  from sp sd l pc run len idx calls show ?thesis by blast
qed

theorem prefetch_after_fetch_witness:
  "GetChunk examplePlayer (exampleStream fiveBlobs)
      \<lparr>cache = exampleTiers [(''62'', ''bb'')] [] originAll, spawned = []\<rparr> 0
    = Some ((Some ''hello'', None),
         (exampleStream fiveBlobs)\<lparr>prefetchedChunks := (\<lambda>i. False)(1 := True)\<rparr>,
         \<lparr>cache = exampleTiers [(''61'', ''hello''), (''62'', ''bb'')] [(''61'', ''hello'')] originAll,
          spawned = [1]\<rparr>)
   \<and> prefetchChunk examplePlayer
        ((exampleStream fiveBlobs)\<lparr>prefetchedChunks := (\<lambda>i. False)(1 := True)\<rparr>)
        (exampleTiers [(''61'', ''hello''), (''62'', ''bb'')] [(''61'', ''hello'')] originAll) (0 + 1)
    = Some ([(blob ''c'' 2097136,
                exampleTiers [(''61'', ''hello''), (''62'', ''bb'')] [(''61'', ''hello'')] originAll),
             (blob ''d'' 2097136,
                exampleTiers [(''63'', ''cc''), (''61'', ''hello''), (''62'', ''bb'')]
                  [(''63'', ''cc''), (''61'', ''hello'')] originAll),
             (blob ''e'' 5000,
                exampleTiers [(''64'', ''dd''), (''63'', ''cc''), (''61'', ''hello''), (''62'', ''bb'')]
                  [(''64'', ''dd''), (''63'', ''cc''), (''61'', ''hello'')] originAll)],
            exampleTiers
              [(''65'', ''ee''), (''64'', ''dd''), (''63'', ''cc''), (''61'', ''hello''), (''62'', ''bb'')]
              [(''65'', ''ee''), (''64'', ''dd''), (''63'', ''cc''), (''61'', ''hello'')] originAll)
   \<and> prefetchChunk examplePlayer
        ((exampleStream fiveBlobs)\<lparr>prefetchedChunks := (\<lambda>i. False)(1 := True)\<rparr>)
        (exampleTiers [(''61'', ''hello''), (''62'', ''bb'')] [(''61'', ''hello'')] originNoD) (0 + 1)
    = Some ([(blob ''c'' 2097136,
                exampleTiers [(''61'', ''hello''), (''62'', ''bb'')] [(''61'', ''hello'')] originNoD),
             (blob ''d'' 2097136,
                exampleTiers [(''63'', ''cc''), (''61'', ''hello''), (''62'', ''bb'')]
                  [(''63'', ''cc''), (''61'', ''hello'')] originNoD)],
            exampleTiers [(''63'', ''cc''), (''61'', ''hello''), (''62'', ''bb'')]
              [(''63'', ''cc''), (''61'', ''hello'')] originNoD)
   \<and> windowRun examplePlayer \<lparr>BlobInfos = fiveBlobs, Key = ''key''\<rparr>
        [blob ''b'' 2097136, blob ''c'' 2097136, blob ''d'' 2097136, blob ''e'' 5000]
        (exampleTiers [(''61'', ''hello''), (''62'', ''bb'')] [(''61'', ''hello'')] originNoD)
        [(blob ''c'' 2097136,
            exampleTiers [(''61'', ''hello''), (''62'', ''bb'')] [(''61'', ''hello'')] originNoD),
         (blob ''d'' 2097136,
            exampleTiers [(''63'', ''cc''), (''61'', ''hello''), (''62'', ''bb'')]
              [(''63'', ''cc''), (''61'', ''hello'')] originNoD)]
        (exampleTiers [(''63'', ''cc''), (''61'', ''hello''), (''62'', ''bb'')]
           [(''63'', ''cc''), (''61'', ''hello'')] originNoD)
   \<and> \<not> windowRun examplePlayer \<lparr>BlobInfos = fiveBlobs, Key = ''key''\<rparr>
        [blob ''b'' 2097136, blob ''c'' 2097136, blob ''d'' 2097136, blob ''e'' 5000]
        (exampleTiers [(''61'', ''hello''), (''62'', ''bb'')] [(''61'', ''hello'')] originAll)
        [(blob ''c'' 2097136,
            exampleTiers [(''61'', ''hello''), (''62'', ''bb'')] [(''61'', ''hello'')] originAll)]
        (exampleTiers [(''63'', ''cc''), (''61'', ''hello''), (''62'', ''bb'')]
           [(''63'', ''cc''), (''61'', ''hello'')] originAll)
   \<and> snd (fst (store_GetChunk
          (exampleTiers [(''63'', ''cc''), (''61'', ''hello''), (''62'', ''bb'')]
             [(''63'', ''cc''), (''61'', ''hello'')] originNoD) ''64'' ''key'' ''iv'')) \<noteq> None
   \<and> \<not> store_IsCached
          (exampleTiers [(''63'', ''cc''), (''61'', ''hello''), (''62'', ''bb'')]
             [(''63'', ''cc''), (''61'', ''hello'')] originNoD) ''65''"
proof -
  let ?s' = "(exampleStream fiveBlobs)\<lparr>prefetchedChunks := (\<lambda>i. False)(1 := True)\<rparr>"
  let ?sd = "\<lparr>BlobInfos = fiveBlobs, Key = ''key''\<rparr>"
  let ?cA = "exampleTiers [(''61'', ''hello''), (''62'', ''bb'')] [(''61'', ''hello'')] originAll"
  let ?cB = "exampleTiers [(''61'', ''hello''), (''62'', ''bb'')] [(''61'', ''hello'')] originNoD"
  have g: "GetChunk examplePlayer (exampleStream fiveBlobs)
      \<lparr>cache = exampleTiers [(''62'', ''bb'')] [] originAll, spawned = []\<rparr> 0
    = Some ((Some ''hello'', None), ?s', \<lparr>cache = ?cA, spawned = [1]\<rparr>)"
    by (simp add: GetChunk_def hex_EncodeToString_a fiveBlobs_def exampleTiers_def originAll_def
        example_defs Let_def)
  have sd: "sdBlob ?s' = Some ?sd" by (simp add: exampleStream_def)
  have lA: "prefetchLoop examplePlayer ?sd (prefetchWindow examplePlayer ?sd 0) ?cA
     = ([(blob ''c'' 2097136, ?cA),
         (blob ''d'' 2097136,
            exampleTiers [(''63'', ''cc''), (''61'', ''hello''), (''62'', ''bb'')]
              [(''63'', ''cc''), (''61'', ''hello'')] originAll),
         (blob ''e'' 5000,
            exampleTiers [(''64'', ''dd''), (''63'', ''cc''), (''61'', ''hello''), (''62'', ''bb'')]
              [(''64'', ''dd''), (''63'', ''cc''), (''61'', ''hello'')] originAll)],
        exampleTiers
          [(''65'', ''ee''), (''64'', ''dd''), (''63'', ''cc''), (''61'', ''hello''), (''62'', ''bb'')]
          [(''65'', ''ee''), (''64'', ''dd''), (''63'', ''cc''), (''61'', ''hello'')] originAll)"
    by (simp add: prefetchWindow_def hex_EncodeToString_b hex_EncodeToString_c
        hex_EncodeToString_d hex_EncodeToString_e fiveBlobs_def exampleTiers_def originAll_def
        example_defs)
  have lB: "prefetchLoop examplePlayer ?sd (prefetchWindow examplePlayer ?sd 0) ?cB
     = ([(blob ''c'' 2097136, ?cB),
         (blob ''d'' 2097136,
            exampleTiers [(''63'', ''cc''), (''61'', ''hello''), (''62'', ''bb'')]
              [(''63'', ''cc''), (''61'', ''hello'')] originNoD)],
        exampleTiers [(''63'', ''cc''), (''61'', ''hello''), (''62'', ''bb'')]
          [(''63'', ''cc''), (''61'', ''hello'')] originNoD)"
    by (simp add: prefetchWindow_def hex_EncodeToString_b hex_EncodeToString_c
        hex_EncodeToString_d hex_EncodeToString_e fiveBlobs_def exampleTiers_def originNoD_def
        example_defs)
  from prefetch_after_fetch [OF g, of ?cA] sd lA
  have a: "prefetchChunk examplePlayer ?s' ?cA (0 + 1) = Some (fst (prefetchLoop examplePlayer ?sd
             (prefetchWindow examplePlayer ?sd 0) ?cA), snd (prefetchLoop examplePlayer ?sd
             (prefetchWindow examplePlayer ?sd 0) ?cA))"
    by auto
  from prefetch_after_fetch [OF g, of ?cB] sd lB
  have b: "prefetchChunk examplePlayer ?s' ?cB (0 + 1) = Some (fst (prefetchLoop examplePlayer ?sd
             (prefetchWindow examplePlayer ?sd 0) ?cB), snd (prefetchLoop examplePlayer ?sd
             (prefetchWindow examplePlayer ?sd 0) ?cB))"
    by auto
  have w: "prefetchWindow examplePlayer ?sd 0
             = [blob ''b'' 2097136, blob ''c'' 2097136, blob ''d'' 2097136, blob ''e'' 5000]"
    by (simp add: prefetchWindow_def fiveBlobs_def examplePlayer_def specPlayer_def)
  from prefetch_after_fetch [OF g, of ?cB] sd lB
  have rB: "windowRun examplePlayer ?sd (prefetchWindow examplePlayer ?sd 0) ?cB
        [(blob ''c'' 2097136, ?cB),
         (blob ''d'' 2097136,
            exampleTiers [(''63'', ''cc''), (''61'', ''hello''), (''62'', ''bb'')]
              [(''63'', ''cc''), (''61'', ''hello'')] originNoD)]
        (exampleTiers [(''63'', ''cc''), (''61'', ''hello''), (''62'', ''bb'')]
           [(''63'', ''cc''), (''61'', ''hello'')] originNoD)"
    by auto
  from prefetch_after_fetch [OF g, of ?cA] sd lA
  have rA: "\<not> windowRun examplePlayer ?sd (prefetchWindow examplePlayer ?sd 0) ?cA
        [(blob ''c'' 2097136, ?cA)]
        (exampleTiers [(''63'', ''cc''), (''61'', ''hello''), (''62'', ''bb'')]
           [(''63'', ''cc''), (''61'', ''hello'')] originAll)"
    by auto
  have e: "snd (fst (store_GetChunk
          (exampleTiers [(''63'', ''cc''), (''61'', ''hello''), (''62'', ''bb'')]
             [(''63'', ''cc''), (''61'', ''hello'')] originNoD) ''64'' ''key'' ''iv'')) \<noteq> None"
    "\<not> store_IsCached
          (exampleTiers [(''63'', ''cc''), (''61'', ''hello''), (''62'', ''bb'')]
             [(''63'', ''cc''), (''61'', ''hello'')] originNoD) ''65''"
    by (simp_all add: store_GetChunk_def store_IsCached_def exampleTiers_def originNoD_def)
  note a' = a [unfolded lA fst_conv snd_conv]
  note b' = b [unfolded lB fst_conv snd_conv]
  note rA' = rA [unfolded w]
  note rB' = rB [unfolded w]
  from g a' b' rA' rB' e show ?thesis by simp
qed

section \<open>The status of an error\<close>

lemma strings_HasPrefix_iff: "strings_HasPrefix s p \<longleftrightarrow> (\<exists>q. s = p @ q)"
proof
  assume "strings_HasPrefix s p"
  then have "s = p @ drop (length p) s"
    unfolding strings_HasPrefix_def by (metis append_take_drop_id)
  then show "\<exists>q. s = p @ q" ..
next
  assume "\<exists>q. s = p @ q"
  then show "strings_HasPrefix s p" by (auto simp add: strings_HasPrefix_def)
qed

lemma strings_Contains_iff: "strings_Contains s sub \<longleftrightarrow> (\<exists>p q. s = p @ sub @ q)"
proof (induction s)
  case Nil
  then show ?case by auto
next
  case (Cons c s)
  show ?case
  proof
    assume "strings_Contains (c # s) sub"
    then consider "strings_HasPrefix (c # s) sub" | "strings_Contains s sub" by auto
    then show "\<exists>p q. c # s = p @ sub @ q"
    proof cases
      case 1
      then obtain q where "c # s = sub @ q" by (auto simp add: strings_HasPrefix_iff)
      then have "c # s = [] @ sub @ q" by simp
      then show ?thesis by blast
    next
      case 2
      with Cons.IH obtain p q where "s = p @ sub @ q" by auto
      then have "c # s = (c # p) @ sub @ q" by simp
      then show ?thesis by blast
    qed
  next
    assume "\<exists>p q. c # s = p @ sub @ q"
    then obtain p q where e: "c # s = p @ sub @ q" by auto
    show "strings_Contains (c # s) sub"
    proof (cases p)
      case Nil
      with e have "strings_HasPrefix (c # s) sub" by (auto simp add: strings_HasPrefix_iff)
      then show ?thesis by simp
    next
      case (Cons a p')
      with e have "s = p' @ sub @ q" by simp
      with Cons.IH have "strings_Contains s sub" by blast
      then show ?thesis by simp
    qed
  qed
qed

text \<open>
  C7. \<open>processStreamError\<close> writes one status and then the text of the error as the body.
  The status is 402 for an error that is the paid-stream error; else 404 for one that is
  the stream-not-found error; else 503 when the text contains "blob not found" or "hash
  in response does not match"; else 401 when it contains "token contains an invalid
  number of segments" or "crypto/rsa: verification error"; else 410 when it contains
  "token is expired"; else 500.
\<close>

theorem processStreamError_status:
  "processStreamError txt w err =
     w\<lparr>calls := calls w @
        [WriteHeader
           (if errors_Is err errPaidStream then 402
            else if errors_Is err errStreamNotFound then 404
            else if (\<exists>p q. Error txt err = p @ ''blob not found'' @ q)
                  \<or> (\<exists>p q. Error txt err = p @ ''hash in response does not match'' @ q) then 503
            else if (\<exists>p q. Error txt err = p @ ''token contains an invalid number of segments'' @ q)
                  \<or> (\<exists>p q. Error txt err = p @ ''crypto/rsa: verification error'' @ q) then 401
            else if (\<exists>p q. Error txt err = p @ ''token is expired'' @ q) then 410
            else 500),
         Write (Error txt err)]\<rparr>"
  unfolding strings_Contains_iff [symmetric]
  by (simp add: processStreamError_def writeErrorResponse_def)

theorem processStreamError_status_witness:
  "processStreamError exampleTexts exampleWriter (Wrapped ''resolve failed'' (Sentinel errPaidStream))
     = exampleWriter\<lparr>calls := [WriteHeader 402, Write ''resolve failed'']\<rparr>
   \<and> processStreamError exampleTexts exampleWriter (Sentinel errStreamNotFound)
     = exampleWriter\<lparr>calls := [WriteHeader 404, Write ''sentinel'']\<rparr>
   \<and> processStreamError exampleTexts exampleWriter (errors_New ''a: blob not found'')
     = exampleWriter\<lparr>calls := [WriteHeader 503, Write ''a: blob not found'']\<rparr>
   \<and> processStreamError exampleTexts exampleWriter (errors_New ''crypto/rsa: verification error'')
     = exampleWriter\<lparr>calls := [WriteHeader 401, Write ''crypto/rsa: verification error'']\<rparr>
   \<and> processStreamError exampleTexts exampleWriter (errors_New ''token is expired by 5m'')
     = exampleWriter\<lparr>calls := [WriteHeader 410, Write ''token is expired by 5m'']\<rparr>
   \<and> processStreamError exampleTexts exampleWriter (errors_New ''boom'')
     = exampleWriter\<lparr>calls := [WriteHeader 500, Write ''boom'']\<rparr>"
  using processStreamError_status [of exampleTexts exampleWriter
      "Wrapped ''resolve failed'' (Sentinel errPaidStream)"]
    processStreamError_status [of exampleTexts exampleWriter "Sentinel errStreamNotFound"]
    processStreamError_status [of exampleTexts exampleWriter "errors_New ''a: blob not found''"]
    processStreamError_status [of exampleTexts exampleWriter
      "errors_New ''crypto/rsa: verification error''"]
    processStreamError_status [of exampleTexts exampleWriter "errors_New ''token is expired by 5m''"]
    processStreamError_status [of exampleTexts exampleWriter "errors_New ''boom''"]
  unfolding strings_Contains_iff [symmetric]
  by (simp add: exampleWriter_def exampleTexts_def strings_HasPrefix_def)

section \<open>The headers of a download\<close>

lemma Header_Set_other: "k \<noteq> k' \<Longrightarrow> Header (Header_Set w k v) k' = Header w k'"
  by (simp add: Header_Set_def)

lemma Header_Set_same: "Header (Header_Set w k v) k = Some [v]"
  by (simp add: Header_Set_def)

lemma keptRune_chars:
  "keptRune L r \<longleftrightarrow> isLetter L r \<or> r \<in> set (runes ''0123456789-._ '')"
proof -
  have "(48 \<le> r \<and> r \<le> 57) \<longleftrightarrow> r \<in> {48, 49, 50, 51, 52, 53, 54, 55, 56, 57}"
    by (simp only: insert_iff empty_iff) presburger
  then show ?thesis
    by (simp add: keptRune_def runes_def)
qed

text \<open>
  C8. When the first value of the query parameter \<open>download\<close> is not empty, \<open>writeHeaders\<close>
  sets \<open>Content-Disposition\<close> to \<open>attachment; filename="f"; filename*=UTF-8''e\<close>, where \<open>f\<close> is
  the stream's file name without every rune that is not a letter, a digit, \<open>-\<close>, \<open>.\<close>, \<open>_\<close> or a
  space, and \<open>e\<close> is \<open>url.PathEscape\<close> of \<open>f\<close>. When the parameter has no value or an empty first
  value, \<open>writeHeaders\<close> leaves \<open>Content-Disposition\<close> as it was. The file name \<open>My Movie!\<close>
  gives \<open>My Movie\<close>.
\<close>

theorem writeHeaders_download:
  "(Query_Get r paramDownload \<noteq> [] \<longrightarrow>
      Header (writeHeaders L P w r s) ''Content-Disposition'' =
        Some [runes ''attachment; filename='' @ [34] @ sanitizeFilename L (Filename P s) @ [34]
                @ runes ''; filename*=UTF-8'' @ [39, 39]
                @ url_PathEscape L (sanitizeFilename L (Filename P s))])
   \<and> (Query_Get r paramDownload = [] \<longrightarrow>
        Header (writeHeaders L P w r s) ''Content-Disposition'' = Header w ''Content-Disposition'')
   \<and> sanitizeFilename L (Filename P s) =
        filter (\<lambda>c. isLetter L c \<or> c \<in> set (runes ''0123456789-._ '')) (Filename P s)
   \<and> (Filename P s = runes ''My Movie!'' \<longrightarrow> sanitizeFilename L (Filename P s) = runes ''My Movie'')"
proof (intro conjI impI)
  assume "Query_Get r paramDownload \<noteq> []"
  then show "Header (writeHeaders L P w r s) ''Content-Disposition'' =
        Some [runes ''attachment; filename='' @ [34] @ sanitizeFilename L (Filename P s) @ [34]
                @ runes ''; filename*=UTF-8'' @ [39, 39]
                @ url_PathEscape L (sanitizeFilename L (Filename P s))]"
    by (simp add: writeHeaders_def Let_def Header_Set_same)
next
  assume "Query_Get r paramDownload = []"
  then show "Header (writeHeaders L P w r s) ''Content-Disposition'' = Header w ''Content-Disposition''"
    by (simp add: writeHeaders_def Let_def Header_Set_other)
next
  show "sanitizeFilename L (Filename P s) =
        filter (\<lambda>c. isLetter L c \<or> c \<in> set (runes ''0123456789-._ '')) (Filename P s)"
    unfolding sanitizeFilename_def keptRune_chars ..
next
  assume "Filename P s = runes ''My Movie!''"
  then show "sanitizeFilename L (Filename P s) = runes ''My Movie''"
    by (simp add: sanitizeFilename_def keptRune_def isLetter_def runes_def)
qed

theorem writeHeaders_download_witness:
  "Header (writeHeaders exampleStdlib examplePlayer exampleWriter
            (exampleRequest ''/claims/one/1/t?download=1'' [''1'']) movieStream) ''Content-Disposition''
     = Some [runes ''attachment; filename='' @ [34] @ runes ''My Movie'' @ [34]
               @ runes ''; filename*=UTF-8'' @ [39, 39] @ runes ''My%20Movie'']
   \<and> Header (writeHeaders exampleStdlib examplePlayer exampleWriter
            (exampleRequest ''/claims/one/1/t'' []) movieStream) ''Content-Disposition'' = None"
proof -
  have f: "Filename examplePlayer movieStream = runes ''My Movie!''"
    by (simp add: Filename_def movieStream_def runes_def)
  have q1: "Query_Get (exampleRequest ''/claims/one/1/t?download=1'' [''1'']) paramDownload \<noteq> []"
    by (simp add: Query_Get_def exampleRequest_def paramDownload_def)
  have q2: "Query_Get (exampleRequest ''/claims/one/1/t'' []) paramDownload = []"
    by (simp add: Query_Get_def exampleRequest_def paramDownload_def)
  from writeHeaders_download [of "exampleRequest ''/claims/one/1/t?download=1'' [''1'']"
      exampleStdlib examplePlayer exampleWriter movieStream]
    writeHeaders_download [of "exampleRequest ''/claims/one/1/t'' []"
      exampleStdlib examplePlayer exampleWriter movieStream] f q1 q2
  show ?thesis
    by (simp add: exampleStdlib_def exampleWriter_def runes_def)
qed

section \<open>The URI of a request\<close>

lemma strings_LastIndex_none: "d \<notin> set s \<Longrightarrow> strings_LastIndex s [d] = - 1"
  by (induction s) (auto simp add: strings_HasPrefix_def)

lemma strings_LastIndex_last:
  "d \<notin> set b \<Longrightarrow> strings_LastIndex (a @ d # b) [d] = int (length a)"
proof (induction a)
  case Nil
  then show ?case by (simp add: strings_LastIndex_none strings_HasPrefix_def)
next
  case (Cons x a)
  then show ?case by simp
qed

lemma split_last_dot:
  assumes "d \<in> set s"
  shows "\<exists>a b. s = a @ d # b \<and> d \<notin> set b"
  using assms by (rule split_list_last)

lemma last_split_unique:
  assumes "a @ d # b = a' @ d # (b' :: string)" and "d \<notin> set b" and "d \<notin> set b'"
  shows "a = a'"
proof -
  have "int (length a) = strings_LastIndex (a @ d # b) [d]"
    using assms(2) by (simp add: strings_LastIndex_last)
  also have "\<dots> = strings_LastIndex (a' @ d # b') [d]" using assms(1) by simp
  also have "\<dots> = int (length a')" using assms(3) by (simp add: strings_LastIndex_last)
  finally have "length a = length a'" by simp
  with assms(1) show ?thesis by simp
qed

text \<open>
  C9. For a request whose URL is \<open>/speech/\<close> followed by \<open>rest\<close>, the residue is \<open>rest\<close> without
  its suffix from the last \<open>.\<close> on (\<open>rest\<close> itself when it has no \<open>.\<close>); when the residue is empty,
  \<open>Handle\<close> writes the status 404 and leaves the state as it was, whatever the player; when
  it is not, \<open>Handle\<close> serves the stream for the residue as URI, with an empty token. For a
  request whose URL does not begin with \<open>/speech/\<close>, \<open>Handle\<close> serves the stream for the URI
  \<open>claim_name#claim_id\<close> of the route variables, with the token of the route variables.
  Serving begins with the resolution of that URI: when it fails, its error is processed.
\<close>

theorem Handle_request_URI:
  "(URL_String r = SpeechPrefix @ rest \<longrightarrow>
      (\<exists>residue.
         (if CHR ''.'' \<in> set rest
          then \<exists>ext. rest = residue @ ''.'' @ ext \<and> CHR ''.'' \<notin> set ext
          else residue = rest)
       \<and> (residue = [] \<longrightarrow>
            Handle L tx P c w r = Some (w\<lparr>calls := calls w @ [WriteHeader 404]\<rparr>, c))
       \<and> (residue \<noteq> [] \<longrightarrow>
            Handle L tx P c w r = serveStream L tx P c w r residue [])))
   \<and> (\<not> strings_HasPrefix (URL_String r) SpeechPrefix \<longrightarrow>
        Handle L tx P c w r =
          serveStream L tx P c w r (Vars r ''claim_name'' @ ''#'' @ Vars r ''claim_id'')
            (Vars r ''token''))
   \<and> (ResolveStream P c uri = (Inl err, c1) \<longrightarrow>
        serveStream L tx P c w r uri token = Some (processStreamError tx w err, c1))"
proof (intro conjI impI)
  assume u: "URL_String r = SpeechPrefix @ rest"
  then have hp: "strings_HasPrefix (URL_String r) SpeechPrefix"
    by (simp add: strings_HasPrefix_def)
  from u have dr: "drop (length SpeechPrefix) (URL_String r) = rest" by simp
  show "\<exists>residue.
         (if CHR ''.'' \<in> set rest
          then \<exists>ext. rest = residue @ ''.'' @ ext \<and> CHR ''.'' \<notin> set ext
          else residue = rest)
       \<and> (residue = [] \<longrightarrow>
            Handle L tx P c w r = Some (w\<lparr>calls := calls w @ [WriteHeader 404]\<rparr>, c))
       \<and> (residue \<noteq> [] \<longrightarrow>
            Handle L tx P c w r = serveStream L tx P c w r residue [])"
  proof (cases "CHR ''.'' \<in> set rest")
    case True
    then obtain a b where ab: "rest = a @ CHR ''.'' # b" and nb: "CHR ''.'' \<notin> set b"
      using split_last_dot [of "CHR ''.''" rest] by blast
    from nb have li: "strings_LastIndex (a @ CHR ''.'' # b) ''.'' = int (length a)"
      by (rule strings_LastIndex_last)
    have ru: "requestURI r = (if a = [] then None else Some (a, []))"
      unfolding requestURI_def Let_def dr ab li using hp by simp
    have e: "\<exists>ext. rest = a @ ''.'' @ ext \<and> CHR ''.'' \<notin> set ext"
      using ab nb by simp
    have h1: "a = [] \<longrightarrow> Handle L tx P c w r = Some (w\<lparr>calls := calls w @ [WriteHeader 404]\<rparr>, c)"
      by (simp add: Handle_def ru)
    have h2: "a \<noteq> [] \<longrightarrow> Handle L tx P c w r = serveStream L tx P c w r a []"
      by (simp add: Handle_def ru)
    from True e h1 h2 show ?thesis
      by (intro exI [of _ a]) (simp only: if_True simp_thms)
  next
    case False
    then have li: "strings_LastIndex rest ''.'' = - 1" by (rule strings_LastIndex_none)
    have ru: "requestURI r = (if rest = [] then None else Some (rest, []))"
      unfolding requestURI_def Let_def dr li using hp by simp
    have h1: "rest = [] \<longrightarrow> Handle L tx P c w r = Some (w\<lparr>calls := calls w @ [WriteHeader 404]\<rparr>, c)"
      by (simp add: Handle_def ru)
    have h2: "rest \<noteq> [] \<longrightarrow> Handle L tx P c w r = serveStream L tx P c w r rest []"
      by (simp add: Handle_def ru)
    from False h1 h2 show ?thesis
      by (intro exI [of _ rest]) (simp only: if_False simp_thms)
  qed
next
  assume "\<not> strings_HasPrefix (URL_String r) SpeechPrefix"
  then show "Handle L tx P c w r =
          serveStream L tx P c w r (Vars r ''claim_name'' @ ''#'' @ Vars r ''claim_id'')
            (Vars r ''token'')"
    by (simp add: Handle_def requestURI_def)
next
  assume "ResolveStream P c uri = (Inl err, c1)"
  then show "serveStream L tx P c w r uri token = Some (processStreamError tx w err, c1)"
    by (simp add: serveStream_def)
qed

theorem Handle_request_URI_witness:
  "Handle exampleStdlib exampleTexts examplePlayer (exampleStore [] [] []) exampleWriter
      (exampleRequest ''/speech/foo.mp4'' [])
    = serveStream exampleStdlib exampleTexts examplePlayer (exampleStore [] [] []) exampleWriter
        (exampleRequest ''/speech/foo.mp4'' []) ''foo'' []
   \<and> Handle exampleStdlib exampleTexts examplePlayer (exampleStore [] [] []) exampleWriter
      (exampleRequest ''/speech/.mp4'' [])
    = Some (exampleWriter\<lparr>calls := [WriteHeader 404]\<rparr>, exampleStore [] [] [])
   \<and> Handle exampleStdlib exampleTexts examplePlayer (exampleStore [] [] []) exampleWriter
      (exampleRequest ''/claims/one/1/t'' [])
    = serveStream exampleStdlib exampleTexts examplePlayer (exampleStore [] [] []) exampleWriter
        (exampleRequest ''/claims/one/1/t'' []) ''one#1'' []
   \<and> serveStream exampleStdlib exampleTexts examplePlayer (exampleStore [] [] []) exampleWriter
        (exampleRequest ''/speech/foo.mp4'' []) ''foo'' []
    = Some (exampleWriter\<lparr>calls := [WriteHeader 404, Write ''sentinel'']\<rparr>, exampleStore [] [] [])"
proof -
  let ?H = "Handle exampleStdlib exampleTexts examplePlayer (exampleStore [] [] []) exampleWriter"
  let ?S = "serveStream exampleStdlib exampleTexts examplePlayer (exampleStore [] [] []) exampleWriter"
  note th = Handle_request_URI [where L = exampleStdlib and tx = exampleTexts
      and P = examplePlayer and c = "exampleStore [] [] []" and w = exampleWriter]
  have u1: "URL_String (exampleRequest ''/speech/foo.mp4'' []) = SpeechPrefix @ ''foo.mp4''"
    by (simp add: exampleRequest_def SpeechPrefix_def)
  have d1: "CHR ''.'' \<in> set ''foo.mp4''" by simp
  have "\<exists>residue. (\<exists>ext. ''foo.mp4'' = residue @ ''.'' @ ext \<and> CHR ''.'' \<notin> set ext)
          \<and> (residue \<noteq> [] \<longrightarrow> ?H (exampleRequest ''/speech/foo.mp4'' [])
                 = ?S (exampleRequest ''/speech/foo.mp4'' []) residue [])"
    using th [where r = "exampleRequest ''/speech/foo.mp4'' []" and rest = "''foo.mp4''"]
    by (simp only: u1 d1 if_True simp_thms) blast
  then obtain residue ext where
    r1: "''foo.mp4'' = residue @ ''.'' @ ext" "CHR ''.'' \<notin> set ext" and
    h1: "residue \<noteq> [] \<longrightarrow> ?H (exampleRequest ''/speech/foo.mp4'' [])
           = ?S (exampleRequest ''/speech/foo.mp4'' []) residue []"
    by blast
  have "''foo'' @ CHR ''.'' # ''mp4'' = residue @ CHR ''.'' # ext" using r1(1) by simp
  then have "''foo'' = residue"
    by (rule last_split_unique) (simp_all add: r1(2))
  with h1 have a: "?H (exampleRequest ''/speech/foo.mp4'' [])
           = ?S (exampleRequest ''/speech/foo.mp4'' []) ''foo'' []"
    by auto
  have u2: "URL_String (exampleRequest ''/speech/.mp4'' []) = SpeechPrefix @ ''.mp4''"
    by (simp add: exampleRequest_def SpeechPrefix_def)
  have d2: "CHR ''.'' \<in> set ''.mp4''" by simp
  have "\<exists>residue. (\<exists>ext. ''.mp4'' = residue @ ''.'' @ ext \<and> CHR ''.'' \<notin> set ext)
          \<and> (residue = [] \<longrightarrow> ?H (exampleRequest ''/speech/.mp4'' [])
                 = Some (exampleWriter\<lparr>calls := calls exampleWriter @ [WriteHeader 404]\<rparr>,
                         exampleStore [] [] []))"
    using th [where r = "exampleRequest ''/speech/.mp4'' []" and rest = "''.mp4''"]
    by (simp only: u2 d2 if_True simp_thms) blast
  then obtain residue2 ext2 where
    r2: "''.mp4'' = residue2 @ ''.'' @ ext2" "CHR ''.'' \<notin> set ext2" and
    h2: "residue2 = [] \<longrightarrow> ?H (exampleRequest ''/speech/.mp4'' [])
           = Some (exampleWriter\<lparr>calls := calls exampleWriter @ [WriteHeader 404]\<rparr>,
                   exampleStore [] [] [])"
    by blast
  have "[] @ CHR ''.'' # ''mp4'' = residue2 @ CHR ''.'' # ext2" using r2(1) by simp
  then have "[] = residue2"
    by (rule last_split_unique) (simp_all add: r2(2))
  with h2 have b: "?H (exampleRequest ''/speech/.mp4'' [])
           = Some (exampleWriter\<lparr>calls := [WriteHeader 404]\<rparr>, exampleStore [] [] [])"
    by (auto simp add: exampleWriter_def)
  have np: "\<not> strings_HasPrefix (URL_String (exampleRequest ''/claims/one/1/t'' [])) SpeechPrefix"
    by (simp add: exampleRequest_def SpeechPrefix_def strings_HasPrefix_def)
  from th [where r = "exampleRequest ''/claims/one/1/t'' []"] np
  have c: "?H (exampleRequest ''/claims/one/1/t'' [])
           = ?S (exampleRequest ''/claims/one/1/t'' []) ''one#1'' []"
    by (simp add: exampleRequest_def)
  have rs: "ResolveStream examplePlayer (exampleStore [] [] []) ''foo''
              = (Inl (Sentinel errStreamNotFound), exampleStore [] [] [])"
    by (simp add: examplePlayer_def specPlayer_def)
  from th [where r = "exampleRequest ''/speech/foo.mp4'' []" and uri = "''foo''"
      and err = "Sentinel errStreamNotFound" and ?c1.0 = "exampleStore [] [] []" and token = "[]"] rs
  have d: "?S (exampleRequest ''/speech/foo.mp4'' []) ''foo'' []
           = Some (exampleWriter\<lparr>calls := [WriteHeader 404, Write ''sentinel'']\<rparr>,
                   exampleStore [] [] [])"
    by (simp add: processStreamError_def writeErrorResponse_def exampleWriter_def exampleTexts_def)
  from a b c d show ?thesis by simp
qed

end
